theory Spec2Isabelle
  imports Complex_Main
begin

section \<open>Anime2Sketch: the U-Net generator as a module graph\<close>

text \<open>
  The program (anime2sketch.py) assembles layers of an external tensor framework into a
  nested encoder-decoder. Three things are modelled:
  \<^item> the module graph the constructors build (a datatype, one constructor per class);
  \<^item> the constructors themselves, with every exception of the source as a value;
  \<^item> the forward passes, over an explicit tensor interface (shapes, and real-valued
    tensors), with the in-place layers of the source changing the tensor they are given.
  Tensors are four-dimensional (N, C, H, W) throughout, as in the program. Tensor
  elements are real numbers: rounding and the special values of float32 are outside
  the model.
\<close>

subsection \<open>Errors\<close>

datatype error = IndexError | AttributeError | TypeError | ValueError | RuntimeError

subsection \<open>Tensors\<close>

type_synonym shape = "nat \<times> nat \<times> nat \<times> nat"

record tensor =
  shape :: shape
  data :: "real list list list list"

subsection \<open>Layers of the framework\<close>

datatype norm_class = InstanceNorm2d | BatchNorm2d

text \<open>
  The \<open>norm_layer\<close> argument: a class, or \<open>functools.partial(cls, affine=.., track_running_stats=..)\<close>
  with each keyword present or absent.
\<close>

datatype norm_layer =
    NormClass norm_class
  | Partial norm_class "bool option" "bool option"

text \<open>
  \<open>Conv2d\<close> and \<open>ConvTranspose2d\<close>: in_channels, out_channels, kernel_size, stride, padding, bias.
  \<open>LeakyReLU\<close>: negative_slope, inplace. \<open>ReLU\<close>: inplace. \<open>Dropout\<close>: p.
  \<open>Norm\<close>: the class, num_features, affine, track_running_stats.
  \<open>nn_Upsample\<close>: scale_factor (mode bilinear). \<open>ReplicationPad2d\<close>: padding.
\<close>

datatype layer =
    Conv2d nat nat nat nat nat bool
  | ConvTranspose2d nat nat nat nat nat bool
  | LeakyReLU real bool
  | ReLU bool
  | Tanh
  | GELU
  | Dropout real
  | Norm norm_class nat bool bool
  | nn_Upsample nat
  | ReplicationPad2d nat

text \<open>The framework's defaults for the two keywords of a normalization class.\<close>

fun default_affine :: "norm_class \<Rightarrow> bool" where
  "default_affine InstanceNorm2d = False"
| "default_affine BatchNorm2d = True"

fun default_track_running_stats :: "norm_class \<Rightarrow> bool" where
  "default_track_running_stats InstanceNorm2d = False"
| "default_track_running_stats BatchNorm2d = True"

text \<open>Calling \<open>norm_layer(num_features)\<close>.\<close>

fun call_norm_layer :: "norm_layer \<Rightarrow> nat \<Rightarrow> layer" where
  "call_norm_layer (NormClass c) n = Norm c n (default_affine c) (default_track_running_stats c)"
| "call_norm_layer (Partial c a t) n =
     Norm c n (case a of None \<Rightarrow> default_affine c | Some v \<Rightarrow> v)
              (case t of None \<Rightarrow> default_track_running_stats c | Some v \<Rightarrow> v)"

subsection \<open>Modules of the program\<close>

text \<open>\<open>Smooth\<close> holds its kernel buffer (a tensor of shape (1, 1, 3, 3)) and its padding layer.\<close>

datatype smooth = Smooth (kernel: tensor) (pad: layer)

text \<open>
  A module in a Sequential: a layer, \<open>None\<close> (a block built with \<open>submodule=None\<close>),
  an \<open>Upsample\<close> with its fields scale_factor, up, smooth, conv and mlp (a Sequential), or a
  \<open>UnetSkipConnectionBlock\<close> with its \<open>outermost\<close> flag and its \<open>model\<close> (a Sequential).
\<close>

datatype module =
    Layer layer
  | NoneModule
  | Upsample nat layer smooth layer "module list"
  | UnetSkipConnectionBlock bool "module list"

subsection \<open>Smooth and Upsample: construction\<close>

definition Smooth_init :: smooth where
  "Smooth_init =
     (let kernel = [[1, 2, 1], [2, 4, 2], [1, 2, 1 :: real]];
          s = sum_list (map sum_list kernel);
          kernel = \<lparr>shape = (1, 1, 3, 3), data = [[map (map (\<lambda>v. v / s)) kernel]]\<rparr>
      in Smooth kernel (ReplicationPad2d 1))"

definition Upsample_init :: "nat \<Rightarrow> nat \<Rightarrow> nat \<Rightarrow> module" where
  "Upsample_init inc outc scale_factor =
     Upsample scale_factor (nn_Upsample scale_factor) Smooth_init (Conv2d inc outc 3 1 1 True)
       [Layer (Conv2d outc (4 * outc) 1 1 0 True), Layer GELU,
        Layer (Conv2d (4 * outc) outc 1 1 0 True)]"

subsection \<open>UnetSkipConnectionBlock: construction\<close>

fun use_bias_of :: "norm_layer \<Rightarrow> bool" where
  "use_bias_of (Partial func a t) = (func = InstanceNorm2d)"
| "use_bias_of (NormClass c) = (c = InstanceNorm2d)"

definition UnetSkipConnectionBlock_init ::
  "nat \<Rightarrow> nat \<Rightarrow> nat option \<Rightarrow> module \<Rightarrow> bool \<Rightarrow> bool \<Rightarrow> norm_layer \<Rightarrow> bool \<Rightarrow> module" where
  "UnetSkipConnectionBlock_init outer_nc inner_nc input_nc submodule outermost innermost
       norm_layer use_dropout =
     (let use_bias = use_bias_of norm_layer;
          input_nc = (case input_nc of None \<Rightarrow> outer_nc | Some c \<Rightarrow> c);
          downconv = Layer (Conv2d input_nc inner_nc 4 2 1 use_bias);
          downrelu = Layer (LeakyReLU (2 / 10) True);
          downnorm = Layer (call_norm_layer norm_layer inner_nc);
          uprelu = Layer (ReLU True);
          upnorm = Layer (call_norm_layer norm_layer outer_nc)
      in if outermost then
           (let upconv = Layer (ConvTranspose2d (inner_nc * 2) outer_nc 4 2 1 True);
                down = [downconv];
                up = [uprelu, upconv, Layer Tanh]
            in UnetSkipConnectionBlock outermost (down @ [submodule] @ up))
         else if innermost then
           (let upconv = Layer (ConvTranspose2d inner_nc outer_nc 4 2 1 use_bias);
                down = [downrelu, downconv];
                up = [uprelu, upconv, upnorm]
            in UnetSkipConnectionBlock outermost (down @ up))
         else
           (let upconv = Layer (ConvTranspose2d (inner_nc * 2) outer_nc 4 2 1 use_bias);
                down = [downrelu, downconv, downnorm];
                up = [uprelu, upconv, upnorm]
            in if use_dropout
               then UnetSkipConnectionBlock outermost (down @ [submodule] @ up @ [Layer (Dropout (1 / 2))])
               else UnetSkipConnectionBlock outermost (down @ [submodule] @ up)))"

subsection \<open>UnetGenerator: construction\<close>

text \<open>The loop \<open>for _ in range(num_downs - 5)\<close> that wraps intermediate blocks.\<close>

fun add_intermediate :: "nat \<Rightarrow> nat \<Rightarrow> norm_layer \<Rightarrow> bool \<Rightarrow> module \<Rightarrow> module" where
  "add_intermediate 0 ngf norm_layer use_dropout unet_block = unet_block"
| "add_intermediate (Suc n) ngf norm_layer use_dropout unet_block =
     add_intermediate n ngf norm_layer use_dropout
       (UnetSkipConnectionBlock_init (ngf * 8) (ngf * 8) None unet_block False False
          norm_layer use_dropout)"

text \<open>Lines 34 to 41: the nested blocks, innermost first. \<open>range\<close> of a negative number is empty.\<close>

definition build_unet :: "nat \<Rightarrow> nat \<Rightarrow> int \<Rightarrow> nat \<Rightarrow> norm_layer \<Rightarrow> bool \<Rightarrow> module" where
  "build_unet input_nc output_nc num_downs ngf norm_layer use_dropout =
     (let unet_block = UnetSkipConnectionBlock_init (ngf * 8) (ngf * 8) None NoneModule False True
                         norm_layer False;
          unet_block = add_intermediate (nat (num_downs - 5)) ngf norm_layer use_dropout unet_block;
          unet_block = UnetSkipConnectionBlock_init (ngf * 4) (ngf * 8) None unet_block False False
                         norm_layer False;
          unet_block = UnetSkipConnectionBlock_init (ngf * 2) (ngf * 4) None unet_block False False
                         norm_layer False;
          unet_block = UnetSkipConnectionBlock_init ngf (ngf * 2) None unet_block False False
                         norm_layer False
      in UnetSkipConnectionBlock_init output_nc ngf (Some input_nc) unet_block True False
           norm_layer False)"

text \<open>
  Reading \<open>seq[i]\<close> from a Sequential raises IndexError out of range; the attribute
  \<open>model\<close> exists on a block only (AttributeError otherwise); \<open>in_channels\<close> and
  \<open>out_channels\<close> exist on the two convolution layers only.
\<close>

definition seq_getitem :: "module list \<Rightarrow> nat \<Rightarrow> error + module" where
  "seq_getitem ms i = (if i < length ms then Inr (ms ! i) else Inl IndexError)"

fun conv_channels :: "module \<Rightarrow> error + nat \<times> nat" where
  "conv_channels (Layer (Conv2d i c k s p b)) = Inr (i, c)"
| "conv_channels (Layer (ConvTranspose2d i c k s p b)) = Inr (i, c)"
| "conv_channels m = Inl AttributeError"

text \<open>
  Lines 46 to 49, the loop \<open>for _ in range(6)\<close> with its cursor \<open>base\<close>. The blocks form a
  tree (no block is shared), so writing \<open>base.model[5]\<close> in place and moving the cursor to
  \<open>base.model[3]\<close> is a descent that rebuilds the path on return: \<open>swap_deconv n base\<close> is
  \<open>base\<close> after the remaining \<open>n\<close> iterations, or the first exception they raise.
\<close>

fun swap_deconv :: "nat \<Rightarrow> module \<Rightarrow> error + module" where
  "swap_deconv 0 base = Inr base"
| "swap_deconv (Suc n) base =
     (case base of
        UnetSkipConnectionBlock om ms \<Rightarrow>
          (case seq_getitem ms 5 of Inl e \<Rightarrow> Inl e | Inr m5 \<Rightarrow>
           (case conv_channels m5 of Inl e \<Rightarrow> Inl e | Inr (inc, outc) \<Rightarrow>
            (let ms = ms[5 := Upsample_init inc outc 2]
             in (case seq_getitem ms 3 of Inl e \<Rightarrow> Inl e | Inr base' \<Rightarrow>
                 (case swap_deconv n base' of Inl e \<Rightarrow> Inl e | Inr base' \<Rightarrow>
                    Inr (UnetSkipConnectionBlock om (ms[3 := base'])))))))
      | _ \<Rightarrow> Inl AttributeError)"

text \<open>Lines 33 to 49: the build, then \<open>base = self.model.model[1]\<close> and the loop.\<close>

definition build_and_swap :: "nat \<Rightarrow> nat \<Rightarrow> int \<Rightarrow> nat \<Rightarrow> norm_layer \<Rightarrow> bool \<Rightarrow> error + module" where
  "build_and_swap input_nc output_nc num_downs ngf norm_layer use_dropout =
     (case build_unet input_nc output_nc num_downs ngf norm_layer use_dropout of
        UnetSkipConnectionBlock om ms \<Rightarrow>
          (case seq_getitem ms 1 of Inl e \<Rightarrow> Inl e | Inr base \<Rightarrow>
           (case swap_deconv 6 base of Inl e \<Rightarrow> Inl e | Inr base' \<Rightarrow>
              Inr (UnetSkipConnectionBlock om (ms[1 := base']))))
      | _ \<Rightarrow> Inl AttributeError)"

subsection \<open>UnetGenerator: weights and the constructor\<close>

text \<open>
  What the program sees of its environment: the directory of the module file
  (\<open>os.path.dirname(__file__)\<close>), the files (a path that does not exist is \<open>None\<close>; one
  that exists holds what \<open>torch.load\<close> makes of it, an exception or a state dictionary),
  and the lines printed so far.
\<close>

record 'w world =
  dirname :: string
  files :: "string \<Rightarrow> (error + 'w) option"
  stdout :: "string list"

text \<open>A generator: the outermost block and the parameters its layers hold.\<close>

record 'w UnetGenerator =
  model :: module
  state_dict :: 'w

definition print :: "string \<Rightarrow> 'w world \<Rightarrow> 'w world" where
  "print line w = w\<lparr>stdout := stdout w @ [line]\<rparr>"

definition checkpoint_path :: "'w world \<Rightarrow> string \<Rightarrow> string" where
  "checkpoint_path w model_path =
     (let cdir = dirname w in if cdir = [] then model_path else cdir @ ''/'' @ model_path)"

text \<open>
  \<open>load_weights\<close>. The framework's \<open>load_state_dict\<close> is a parameter: from the module graph,
  the current parameters and the loaded dictionary it gives the new parameters, or raises.
\<close>

definition load_weights ::
  "(module \<Rightarrow> 'w \<Rightarrow> 'w \<Rightarrow> error + 'w) \<Rightarrow> 'w UnetGenerator \<Rightarrow> string \<Rightarrow> 'w world
     \<Rightarrow> error + 'w UnetGenerator \<times> 'w world" where
  "load_weights load_state_dict self model_path w =
     (let checkpoint = checkpoint_path w model_path
      in case files w checkpoint of
           Some content \<Rightarrow>
             (let w = print (''Loading weight from '' @ checkpoint @ '' ...'') w
              in case content of
                   Inl e \<Rightarrow> Inl e
                 | Inr weight_state \<Rightarrow>
                     (case load_state_dict (model self) (state_dict self) weight_state of
                        Inl e \<Rightarrow> Inl e
                      | Inr sd \<Rightarrow> Inr (self\<lparr>state_dict := sd\<rparr>, w)))
         | None \<Rightarrow>
             (let w = print (replicate 32 CHR ''-'' @ '' Warnning '' @ replicate 32 CHR ''-'') w;
                  w = print (''Weight file '' @ [CHR 0x27] @ checkpoint @ [CHR 0x27] @ '' not exist !!!'') w
              in Inr (self, w)))"

text \<open>
  \<open>UnetGenerator.__init__\<close>. \<open>init\<close> is the framework's initialization of the parameters
  of the layers created (it is random in the framework; here any function of the graph).
\<close>

definition UnetGenerator_init ::
  "(module \<Rightarrow> 'w \<Rightarrow> 'w \<Rightarrow> error + 'w) \<Rightarrow> (module \<Rightarrow> 'w) \<Rightarrow> 'w world
     \<Rightarrow> nat \<Rightarrow> nat \<Rightarrow> int \<Rightarrow> nat \<Rightarrow> norm_layer \<Rightarrow> bool
     \<Rightarrow> error + 'w UnetGenerator \<times> 'w world" where
  "UnetGenerator_init load_state_dict init w input_nc output_nc num_downs ngf norm_layer use_dropout =
     (case build_and_swap input_nc output_nc num_downs ngf norm_layer use_dropout of
        Inl e \<Rightarrow> Inl e
      | Inr m \<Rightarrow>
          load_weights load_state_dict \<lparr>model = m, state_dict = init m\<rparr> ''models/Anime2Sketch.pth'' w)"

subsection \<open>Reading a module graph\<close>

text \<open>
  The stages of a graph, outermost first: for each block its kind, the channels
  (in, out) of its down-sampling convolution, and its up-sampling module (the first
  transposed convolution or Upsample of its Sequential). A block that is not outermost
  and holds no block is innermost.
\<close>

datatype stage_kind = Outermost | Intermediate | Innermost

fun is_block :: "module \<Rightarrow> bool" where
  "is_block (UnetSkipConnectionBlock om ms) = True"
| "is_block m = False"

fun first_conv :: "module list \<Rightarrow> (nat \<times> nat) option" where
  "first_conv [] = None"
| "first_conv (Layer (Conv2d i c k s p b) # ms) = Some (i, c)"
| "first_conv (m # ms) = first_conv ms"

fun first_decoder :: "module list \<Rightarrow> module option" where
  "first_decoder [] = None"
| "first_decoder (Layer (ConvTranspose2d i c k s p b) # ms) = Some (Layer (ConvTranspose2d i c k s p b))"
| "first_decoder (Upsample sf u sm cv mlp # ms) = Some (Upsample sf u sm cv mlp)"
| "first_decoder (m # ms) = first_decoder ms"

type_synonym stage = "stage_kind \<times> (nat \<times> nat) option \<times> module option"

fun stages :: "module \<Rightarrow> stage list" where
  "stages (UnetSkipConnectionBlock om ms) =
     ((if om then Outermost else if list_ex is_block ms then Intermediate else Innermost),
      first_conv ms, first_decoder ms) # concat (map stages ms)"
| "stages m = []"

text \<open>The graph with every up-sampling module (of either kind) blanked out.\<close>

fun erase_decoders :: "module \<Rightarrow> module" where
  "erase_decoders (Layer (ConvTranspose2d i c k s p b)) = NoneModule"
| "erase_decoders (Upsample sf u sm cv mlp) = NoneModule"
| "erase_decoders (UnetSkipConnectionBlock om ms) = UnetSkipConnectionBlock om (map erase_decoders ms)"
| "erase_decoders m = m"

text \<open>The convolutions (of either kind) a block holds itself, with their bias flags.\<close>

fun own_convs :: "module list \<Rightarrow> layer list" where
  "own_convs [] = []"
| "own_convs (Layer (Conv2d i c k s p b) # ms) = Conv2d i c k s p b # own_convs ms"
| "own_convs (Layer (ConvTranspose2d i c k s p b) # ms) = ConvTranspose2d i c k s p b # own_convs ms"
| "own_convs (m # ms) = own_convs ms"

fun has_bias :: "layer \<Rightarrow> bool" where
  "has_bias (Conv2d i c k s p b) = b"
| "has_bias (ConvTranspose2d i c k s p b) = b"
| "has_bias l = False"

fun block_model :: "module \<Rightarrow> module list" where
  "block_model (UnetSkipConnectionBlock om ms) = ms"
| "block_model m = []"

fun is_transposed :: "layer \<Rightarrow> bool" where
  "is_transposed (ConvTranspose2d i c k s p b) = True"
| "is_transposed l = False"

text \<open>
  The class behind a \<open>norm_layer\<close> argument, and whether the normalization it creates has
  learned affine parameters.
\<close>

fun norm_class_of :: "norm_layer \<Rightarrow> norm_class" where
  "norm_class_of (NormClass c) = c"
| "norm_class_of (Partial c a t) = c"

fun norm_affine :: "layer \<Rightarrow> bool" where
  "norm_affine (Norm c n a t) = a"
| "norm_affine l = False"

text \<open>
  A block that is neither outermost nor innermost, after the loop has replaced its
  \<open>model[5]\<close>: what \<open>swap_deconv\<close> is shown to produce.
\<close>

definition swapped_block :: "nat \<Rightarrow> nat \<Rightarrow> module \<Rightarrow> norm_layer \<Rightarrow> bool \<Rightarrow> module" where
  "swapped_block outer_nc inner_nc submodule norm_layer use_dropout =
     UnetSkipConnectionBlock False
       ((block_model (UnetSkipConnectionBlock_init outer_nc inner_nc None submodule False False
           norm_layer use_dropout))
        [5 := Upsample_init (inner_nc * 2) outer_nc 2])"

text \<open>
  The generator's graph after the loop, for \<open>m\<close> intermediate blocks left untouched
  above the innermost one: what \<open>build_and_swap\<close> is shown to produce.
\<close>

definition swapped_unet :: "nat \<Rightarrow> nat \<Rightarrow> nat \<Rightarrow> nat \<Rightarrow> norm_layer \<Rightarrow> bool \<Rightarrow> module" where
  "swapped_unet input_nc output_nc m ngf norm_layer use_dropout =
     UnetSkipConnectionBlock True
       [Layer (Conv2d input_nc ngf 4 2 1 (use_bias_of norm_layer)),
        swapped_block ngf (ngf * 2)
          (swapped_block (ngf * 2) (ngf * 4)
            (swapped_block (ngf * 4) (ngf * 8)
              (swapped_block (ngf * 8) (ngf * 8)
                (swapped_block (ngf * 8) (ngf * 8)
                  (swapped_block (ngf * 8) (ngf * 8)
                    (add_intermediate m ngf norm_layer use_dropout
                       (UnetSkipConnectionBlock_init (ngf * 8) (ngf * 8) None NoneModule False True
                          norm_layer False))
                    norm_layer use_dropout) norm_layer use_dropout) norm_layer use_dropout)
              norm_layer False) norm_layer False) norm_layer False,
        Layer (ReLU True), Layer (ConvTranspose2d (ngf * 2) output_nc 4 2 1 True), Layer Tanh]"

section \<open>Forward passes\<close>

subsection \<open>The tensor interface\<close>

text \<open>
  What the program asks of the framework, over a type \<open>'t\<close> of tensors: the shape of a
  tensor, the forward pass of a layer, \<open>F.conv2d(x, weight)\<close>, \<open>x.view(a, b, c, d)\<close>,
  \<open>torch.cat([x, y], 1)\<close>, \<open>x + y\<close>, and arithmetic with a scalar (a function applied to
  every element). Each may raise.
\<close>

record 't ops =
  tensor_size :: "'t \<Rightarrow> shape"
  call :: "layer \<Rightarrow> 't \<Rightarrow> error + 't"
  F_conv2d :: "'t \<Rightarrow> tensor \<Rightarrow> error + 't"
  tensor_view :: "'t \<Rightarrow> int \<times> int \<times> int \<times> int \<Rightarrow> error + 't"
  torch_cat :: "'t \<Rightarrow> 't \<Rightarrow> error + 't"
  tensor_add :: "'t \<Rightarrow> 't \<Rightarrow> error + 't"
  pointwise :: "(real \<Rightarrow> real) \<Rightarrow> 't \<Rightarrow> 't"

definition and_then :: "error + 'a \<Rightarrow> ('a \<Rightarrow> error + 'b) \<Rightarrow> error + 'b" where
  "and_then r f = (case r of Inl e \<Rightarrow> Inl e | Inr v \<Rightarrow> f v)"

text \<open>
  The second positional argument of \<open>nn.LeakyReLU(0.2, True)\<close> and the first of
  \<open>nn.ReLU(True)\<close> is \<open>inplace\<close>: such a layer overwrites the tensor it is given and
  returns that same tensor.
\<close>

fun inplace :: "layer \<Rightarrow> bool" where
  "inplace (LeakyReLU slope b) = b"
| "inplace (ReLU b) = b"
| "inplace l = False"

text \<open>
  Calling a module on a tensor \<open>x\<close> gives three things: the contents of \<open>x\<close> after the
  call, the tensor returned, and whether the tensor returned is \<open>x\<close> itself.
\<close>

definition layer_forward :: "'t ops \<Rightarrow> layer \<Rightarrow> 't \<Rightarrow> error + 't \<times> 't \<times> bool" where
  "layer_forward ops l x =
     and_then (call ops l x) (\<lambda>y. if inplace l then Inr (y, y, True) else Inr (x, y, False))"

subsection \<open>Smooth.forward\<close>

text \<open>
  The view shares the storage of \<open>x\<close>, and nothing writes to it: the padding layer of the
  Smooth the program builds is not in place.
\<close>

definition Smooth_forward :: "'t ops \<Rightarrow> smooth \<Rightarrow> 't \<Rightarrow> error + 't" where
  "Smooth_forward ops self x =
     (case tensor_size ops x of (b, c, h, w) \<Rightarrow>
        and_then (tensor_view ops x (- 1, 1, int h, int w)) (\<lambda>x.
        and_then (call ops (pad self) x) (\<lambda>x.
        and_then (F_conv2d ops x (kernel self)) (\<lambda>x.
        tensor_view ops x (int b, int c, int h, int w)))))"

subsection \<open>Sequential, UnetSkipConnectionBlock.forward and Upsample.forward\<close>

text \<open>
  \<open>Sequential_forward ops ms x cur alias\<close> runs the modules \<open>ms\<close> on the current tensor
  \<open>cur\<close>; \<open>x\<close> is the contents of the tensor the Sequential was called on, and \<open>alias\<close>
  says whether \<open>cur\<close> still is that tensor. A block that is not outermost evaluates
  \<open>torch.cat([x, self.model(x)], 1)\<close>: the list holds the tensor \<open>x\<close>, and \<open>cat\<close> reads it
  after \<open>self.model\<close> has run.
\<close>

fun forward :: "'t ops \<Rightarrow> module \<Rightarrow> 't \<Rightarrow> error + 't \<times> 't \<times> bool"
  and Sequential_forward ::
    "'t ops \<Rightarrow> module list \<Rightarrow> 't \<Rightarrow> 't \<Rightarrow> bool \<Rightarrow> error + 't \<times> 't \<times> bool" where
  "forward ops (Layer l) x = layer_forward ops l x"
| "forward ops NoneModule x = Inl TypeError"
| "forward ops (Upsample sf up_layer sm conv_layer mlp_seq) x =
     (case layer_forward ops up_layer x of Inl e \<Rightarrow> Inl e | Inr (x', u, same_u) \<Rightarrow>
      (case Smooth_forward ops sm u of Inl e \<Rightarrow> Inl e | Inr s \<Rightarrow>
       (case layer_forward ops conv_layer s of Inl e \<Rightarrow> Inl e | Inr (s', c, same_c) \<Rightarrow>
        (case Sequential_forward ops mlp_seq c c True of Inl e \<Rightarrow> Inl e | Inr (c', m, same_m) \<Rightarrow>
         (case tensor_add ops m c' of Inl e \<Rightarrow> Inl e | Inr r \<Rightarrow> Inr (x', r, False))))))"
| "forward ops (UnetSkipConnectionBlock om ms) x =
     (case Sequential_forward ops ms x x True of Inl e \<Rightarrow> Inl e | Inr (x', y, same) \<Rightarrow>
        if om then Inr (x', y, same)
        else (case torch_cat ops x' y of Inl e \<Rightarrow> Inl e | Inr r \<Rightarrow> Inr (x', r, False)))"
| "Sequential_forward ops [] x cur alias = Inr (x, cur, alias)"
| "Sequential_forward ops (m # ms) x cur alias =
     (case forward ops m cur of Inl e \<Rightarrow> Inl e | Inr (cur', out, same) \<Rightarrow>
        Sequential_forward ops ms (if alias then cur' else x) out (alias \<and> same))"

subsection \<open>UnetGenerator.forward\<close>

definition UnetGenerator_forward :: "'t ops \<Rightarrow> module \<Rightarrow> 't \<Rightarrow> error + 't" where
  "UnetGenerator_forward ops self_model input =
     (let input = pointwise ops (\<lambda>v. v * 2) (pointwise ops (\<lambda>v. v - 5 / 10) input)
      in case forward ops self_model input of
           Inl e \<Rightarrow> Inl e
         | Inr (input', output, same) \<Rightarrow>
             Inr (pointwise ops (\<lambda>v. v / 2) (pointwise ops (\<lambda>v. v + 1) output)))"

subsection \<open>The framework on shapes\<close>

text \<open>
  The shape each framework operation returns, and the shapes it rejects, after the
  framework's documentation. Modules are in training mode, as the constructor leaves
  them. Whether the strides of a tensor allow a view is not modelled.
\<close>

fun layer_shape :: "layer \<Rightarrow> shape \<Rightarrow> error + shape" where
  "layer_shape (Conv2d ci co k s p b) (n, c, h, w) =
     (if c \<noteq> ci \<or> k = 0 \<or> s = 0 \<or> h + 2 * p < k \<or> w + 2 * p < k then Inl RuntimeError
      else Inr (n, co, (h + 2 * p - k) div s + 1, (w + 2 * p - k) div s + 1))"
| "layer_shape (ConvTranspose2d ci co k s p b) (n, c, h, w) =
     (if c \<noteq> ci \<or> k = 0 \<or> s = 0 \<or> h = 0 \<or> w = 0
         \<or> (h - 1) * s + k \<le> 2 * p \<or> (w - 1) * s + k \<le> 2 * p then Inl RuntimeError
      else Inr (n, co, (h - 1) * s + k - 2 * p, (w - 1) * s + k - 2 * p))"
| "layer_shape (Norm InstanceNorm2d nf a t) (n, c, h, w) =
     (if c \<noteq> nf \<and> a then Inl ValueError
      else if h * w = 1 then Inl ValueError
      else if c \<noteq> nf \<and> t then Inl RuntimeError
      else Inr (n, c, h, w))"
| "layer_shape (Norm BatchNorm2d nf a t) (n, c, h, w) =
     (if n * h * w = 1 then Inl ValueError
      else if c \<noteq> nf \<and> (a \<or> t) then Inl RuntimeError
      else Inr (n, c, h, w))"
| "layer_shape (nn_Upsample sf) (n, c, h, w) =
     (if c = 0 \<or> h = 0 \<or> w = 0 \<or> sf = 0 then Inl RuntimeError
      else Inr (n, c, h * sf, w * sf))"
| "layer_shape (ReplicationPad2d p) (n, c, h, w) =
     (if c = 0 \<or> h = 0 \<or> w = 0 then Inl RuntimeError
      else Inr (n, c, h + 2 * p, w + 2 * p))"
| "layer_shape l s = Inr s"

definition conv2d_shape :: "shape \<Rightarrow> tensor \<Rightarrow> error + shape" where
  "conv2d_shape s weight =
     (case s of (n, c, h, w) \<Rightarrow>
      (case shape weight of (co, ci, kh, kw) \<Rightarrow>
        if c \<noteq> ci \<or> kh = 0 \<or> kw = 0 \<or> h < kh \<or> w < kw then Inl RuntimeError
        else Inr (n, co, h - kh + 1, w - kw + 1)))"

text \<open>
  \<open>view\<close> with at most one dimension given as -1. The inferred dimension is ambiguous,
  and rejected, when the other dimensions multiply to zero.
\<close>

definition view_shape :: "shape \<Rightarrow> int \<times> int \<times> int \<times> int \<Rightarrow> error + shape" where
  "view_shape s dims =
     (case s of (n, c, h, w) \<Rightarrow>
      (case dims of (d1, d2, d3, d4) \<Rightarrow>
        (let numel = n * c * h * w;
             ds = [d1, d2, d3, d4];
             known = filter (\<lambda>d. d \<noteq> - 1) ds;
             inferred = length (filter (\<lambda>d. d = - 1) ds);
             p = nat (prod_list known);
             dim = (\<lambda>d. if d = - 1 then numel div p else nat d)
         in if list_ex (\<lambda>d. d < 0) known \<or> 1 < inferred then Inl RuntimeError
            else if inferred = 1 then
              (if p = 0 \<or> numel mod p \<noteq> 0 then Inl RuntimeError
               else Inr (dim d1, dim d2, dim d3, dim d4))
            else if p = numel then Inr (dim d1, dim d2, dim d3, dim d4)
            else Inl RuntimeError)))"

definition cat_shape :: "shape \<Rightarrow> shape \<Rightarrow> error + shape" where
  "cat_shape s1 s2 =
     (case s1 of (n, c, h, w) \<Rightarrow>
      (case s2 of (n', c', h', w') \<Rightarrow>
        if n = n' \<and> h = h' \<and> w = w' then Inr (n, c + c', h, w) else Inl RuntimeError))"

text \<open>Broadcasting of one dimension: equal sizes, or one of them is 1.\<close>

definition broadcast_dim :: "nat \<Rightarrow> nat \<Rightarrow> nat option" where
  "broadcast_dim a b =
     (if a = b then Some a else if a = 1 then Some b else if b = 1 then Some a else None)"

definition add_shape :: "shape \<Rightarrow> shape \<Rightarrow> error + shape" where
  "add_shape s1 s2 =
     (case s1 of (n, c, h, w) \<Rightarrow>
      (case s2 of (n', c', h', w') \<Rightarrow>
        (case (broadcast_dim n n', broadcast_dim c c', broadcast_dim h h', broadcast_dim w w') of
           (Some a, Some b, Some d, Some e) \<Rightarrow> Inr (a, b, d, e)
         | _ \<Rightarrow> Inl RuntimeError)))"

definition shape_ops :: "shape ops" where
  "shape_ops =
     \<lparr>tensor_size = (\<lambda>s. s), call = layer_shape, F_conv2d = conv2d_shape,
      tensor_view = view_shape, torch_cat = cat_shape, tensor_add = add_shape,
      pointwise = (\<lambda>f s. s)\<rparr>"

subsection \<open>Reading shapes off a graph\<close>

text \<open>
  A block that is not outermost, on an input whose height and width are positive
  multiples of \<open>2 ^ k\<close>: it returns twice the channels at the same size.
\<close>

definition skip_ok :: "module \<Rightarrow> nat \<Rightarrow> nat \<Rightarrow> bool" where
  "skip_ok X c k = (\<forall>n h w. 0 < h \<longrightarrow> 0 < w \<longrightarrow> 2 ^ k dvd h \<longrightarrow> 2 ^ k dvd w \<longrightarrow>
      forward shape_ops X (n, c, h, w) = Inr ((n, c, h, w), (n, 2 * c, h, w), False))"


text \<open>
  The blocks of a graph, outermost first, and the channels (in, out) of an up-sampling
  module of either kind.
\<close>

fun blocks :: "module \<Rightarrow> module list" where
  "blocks (UnetSkipConnectionBlock om ms) = UnetSkipConnectionBlock om ms # concat (map blocks ms)"
| "blocks m = []"

fun decoder_channels :: "module \<Rightarrow> (nat \<times> nat) option" where
  "decoder_channels (Layer (ConvTranspose2d i c k s p b)) = Some (i, c)"
| "decoder_channels (Upsample sf u sm (Conv2d i c k s p b) mlp) = Some (i, c)"
| "decoder_channels m = None"

subsection \<open>The framework on real-valued tensors\<close>

text \<open>
  The data of a tensor is a list of images, each a list of channels, each a list of rows.
  The operations whose arithmetic the program fixes are defined here: the activations,
  replication padding, \<open>F.conv2d\<close>, \<open>view\<close>, \<open>cat\<close>, \<open>+\<close> and scalar arithmetic. The output
  of every other layer (learned convolutions, normalization, GELU, bilinear resizing,
  dropout) is a parameter \<open>num\<close>, which stands for the parameters and the numerics of
  the framework; its shape is the one of \<open>layer_shape\<close>.
\<close>

definition map4 :: "(real \<Rightarrow> real) \<Rightarrow> real list list list list \<Rightarrow> real list list list list" where
  "map4 f = map (map (map (map f)))"

definition pad_row :: "nat \<Rightarrow> real list \<Rightarrow> real list" where
  "pad_row p r = replicate p (hd r) @ r @ replicate p (last r)"

definition pad_plane :: "nat \<Rightarrow> real list list \<Rightarrow> real list list" where
  "pad_plane p rows =
     (let rows' = map (pad_row p) rows in replicate p (hd rows') @ rows' @ replicate p (last rows'))"

fun layer_data ::
  "(layer \<Rightarrow> tensor \<Rightarrow> real list list list list) \<Rightarrow> layer \<Rightarrow> tensor \<Rightarrow> real list list list list" where
  "layer_data num (LeakyReLU slope b) t = map4 (\<lambda>v. if 0 < v then v else slope * v) (data t)"
| "layer_data num (ReLU b) t = map4 (\<lambda>v. max 0 v) (data t)"
| "layer_data num Tanh t = map4 tanh (data t)"
| "layer_data num (ReplicationPad2d p) t = map (map (pad_plane p)) (data t)"
| "layer_data num l t = num l t"

text \<open>
  \<open>F.conv2d\<close> with stride 1 and no padding: the output element at (i, j) of the filter
  \<open>filt\<close> on the image \<open>img\<close> is the sum over channels and kernel positions.
\<close>

definition corr_at :: "real list list list \<Rightarrow> real list list list \<Rightarrow> nat \<Rightarrow> nat \<Rightarrow> real" where
  "corr_at img filt i j =
     (\<Sum>c\<leftarrow>[0..<length filt]. \<Sum>di\<leftarrow>[0..<length (filt ! c)]. \<Sum>dj\<leftarrow>[0..<length (filt ! c ! di)].
        filt ! c ! di ! dj * img ! c ! (i + di) ! (j + dj))"

definition conv2d_data :: "tensor \<Rightarrow> tensor \<Rightarrow> nat \<Rightarrow> nat \<Rightarrow> real list list list list" where
  "conv2d_data x weight oh ow =
     map (\<lambda>img. map (\<lambda>filt. map (\<lambda>i. map (\<lambda>j. corr_at img filt i j) [0..<ow]) [0..<oh]) (data weight))
       (data x)"

text \<open>A view keeps the elements in row-major order and regroups them.\<close>

definition flatten4 :: "'a list list list list \<Rightarrow> 'a list" where
  "flatten4 d = concat (concat (concat d))"

fun chunk :: "nat \<Rightarrow> nat \<Rightarrow> 'a list \<Rightarrow> 'a list list" where
  "chunk 0 k xs = []"
| "chunk (Suc n) k xs = take k xs # chunk n k (drop k xs)"

definition unflatten4 :: "shape \<Rightarrow> 'a list \<Rightarrow> 'a list list list list" where
  "unflatten4 s xs =
     (case s of (n, c, h, w) \<Rightarrow>
        map (\<lambda>img. map (chunk h w) (chunk c (h * w) img)) (chunk n (c * h * w) xs))"

text \<open>
  Elementwise operation with broadcasting: a dimension of size 1 is repeated. (Sizes
  that do not broadcast are rejected on the shapes, before the data is combined.)
\<close>

definition bzip :: "('a \<Rightarrow> 'a \<Rightarrow> 'a) \<Rightarrow> 'a list \<Rightarrow> 'a list \<Rightarrow> 'a list" where
  "bzip f xs ys =
     (if length xs = length ys then map2 f xs ys
      else if length xs = 1 then map (f (hd xs)) ys
      else if length ys = 1 then map (\<lambda>x. f x (hd ys)) xs
      else [])"

definition add_data ::
  "real list list list list \<Rightarrow> real list list list list \<Rightarrow> real list list list list" where
  "add_data = bzip (bzip (bzip (bzip (+))))"

definition tensor_ops :: "(layer \<Rightarrow> tensor \<Rightarrow> real list list list list) \<Rightarrow> tensor ops" where
  "tensor_ops num =
     \<lparr>tensor_size = shape,
      call = (\<lambda>l t. and_then (layer_shape l (shape t))
                (\<lambda>s. Inr \<lparr>shape = s, data = layer_data num l t\<rparr>)),
      F_conv2d = (\<lambda>t weight. and_then (conv2d_shape (shape t) weight)
                (\<lambda>s. case s of (n, co, oh, ow) \<Rightarrow>
                   Inr \<lparr>shape = s, data = conv2d_data t weight oh ow\<rparr>)),
      tensor_view = (\<lambda>t dims. and_then (view_shape (shape t) dims)
                (\<lambda>s. Inr \<lparr>shape = s, data = unflatten4 s (flatten4 (data t))\<rparr>)),
      torch_cat = (\<lambda>a b. and_then (cat_shape (shape a) (shape b))
                (\<lambda>s. Inr \<lparr>shape = s, data = map2 (@) (data a) (data b)\<rparr>)),
      tensor_add = (\<lambda>a b. and_then (add_shape (shape a) (shape b))
                (\<lambda>s. Inr \<lparr>shape = s, data = add_data (data a) (data b)\<rparr>)),
      pointwise = (\<lambda>f t. t\<lparr>data := map4 f (data t)\<rparr>)\<rparr>"

text \<open>Data with the sizes a shape says, and a tensor whose data has the sizes of its shape.\<close>

definition rect :: "shape \<Rightarrow> 'a list list list list \<Rightarrow> bool" where
  "rect s d =
     (case s of (n, c, h, w) \<Rightarrow>
        length d = n \<and>
        list_all (\<lambda>img. length img = c \<and>
          list_all (\<lambda>pl. length pl = h \<and> list_all (\<lambda>r. length r = w) pl) img) d)"

definition wf_tensor :: "tensor \<Rightarrow> bool" where
  "wf_tensor t = rect (shape t) (data t)"

text \<open>
  The layers with every learned parameter zero: every element of the output of a
  convolution is 0. On an input of zeros the layers without parameters (normalization,
  GELU, resizing) return zeros too, and only there is this an instance of \<open>num\<close> the
  framework can produce.
\<close>

definition zeros :: "shape \<Rightarrow> real list list list list" where
  "zeros s = (case s of (n, c, h, w) \<Rightarrow> replicate n (replicate c (replicate h (replicate w 0))))"

definition zero_parameters :: "layer \<Rightarrow> tensor \<Rightarrow> real list list list list" where
  "zero_parameters l t = (case layer_shape l (shape t) of Inl e \<Rightarrow> [] | Inr s \<Rightarrow> zeros s)"

subsection \<open>What the specification says Smooth computes\<close>

text \<open>
  Each channel on its own, with the kernel (1 2 1; 2 4 2; 1 2 1) / 16, on the plane
  extended by one row and one column on each side that repeat the border: the element
  at (i, j) of the extended plane is the element at (i - 1, j - 1) of the plane, with
  both indices kept within it.
\<close>

definition blur_kernel :: "real list list" where
  "blur_kernel = [[1 / 16, 2 / 16, 1 / 16], [2 / 16, 4 / 16, 2 / 16], [1 / 16, 2 / 16, 1 / 16]]"

definition replicated :: "real list list \<Rightarrow> nat \<Rightarrow> nat \<Rightarrow> real" where
  "replicated pl i j =
     (let h = length pl; w = length (hd pl)
      in pl ! (min (h - 1) (i - 1)) ! (min (w - 1) (j - 1)))"

definition blur_plane :: "real list list \<Rightarrow> real list list" where
  "blur_plane pl =
     map (\<lambda>i. map (\<lambda>j. \<Sum>di\<leftarrow>[0..<3]. \<Sum>dj\<leftarrow>[0..<3].
                    blur_kernel ! di ! dj * replicated pl (i + di) (j + dj))
              [0..<length (hd pl)])
       [0..<length pl]"

section \<open>Properties of the construction\<close>

lemma call_norm_layer_Norm: "\<exists>a t c. call_norm_layer nl n = Norm c n a t"
  by (cases nl) auto

lemma init_middle:
  "UnetSkipConnectionBlock_init oc ic None sub False False nl ud =
     UnetSkipConnectionBlock False
       ([Layer (LeakyReLU (2 / 10) True), Layer (Conv2d oc ic 4 2 1 (use_bias_of nl)),
         Layer (call_norm_layer nl ic), sub, Layer (ReLU True),
         Layer (ConvTranspose2d (ic * 2) oc 4 2 1 (use_bias_of nl)),
         Layer (call_norm_layer nl oc)] @ (if ud then [Layer (Dropout (1 / 2))] else []))"
  by (simp add: UnetSkipConnectionBlock_init_def Let_def)

lemma init_inner:
  "UnetSkipConnectionBlock_init oc ic None sub False True nl ud =
     UnetSkipConnectionBlock False
       [Layer (LeakyReLU (2 / 10) True), Layer (Conv2d oc ic 4 2 1 (use_bias_of nl)),
        Layer (ReLU True), Layer (ConvTranspose2d ic oc 4 2 1 (use_bias_of nl)),
        Layer (call_norm_layer nl oc)]"
  by (simp add: UnetSkipConnectionBlock_init_def Let_def)

lemma init_outer:
  "UnetSkipConnectionBlock_init oc ic (Some inp) sub True im nl ud =
     UnetSkipConnectionBlock True
       [Layer (Conv2d inp ic 4 2 1 (use_bias_of nl)), sub, Layer (ReLU True),
        Layer (ConvTranspose2d (ic * 2) oc 4 2 1 True), Layer Tanh]"
  by (simp add: UnetSkipConnectionBlock_init_def Let_def)

lemma add_intermediate_wrap:
  "add_intermediate n ngf nl ud (UnetSkipConnectionBlock_init (ngf * 8) (ngf * 8) None X False False nl ud) =
   UnetSkipConnectionBlock_init (ngf * 8) (ngf * 8) None (add_intermediate n ngf nl ud X) False False nl ud"
  by (induction n arbitrary: X) simp_all

lemma add_intermediate_Suc:
  "add_intermediate (Suc n) ngf nl ud X =
   UnetSkipConnectionBlock_init (ngf * 8) (ngf * 8) None (add_intermediate n ngf nl ud X) False False nl ud"
  by (simp add: add_intermediate_wrap)

lemma is_block_add_intermediate:
  assumes "is_block X"
  shows "is_block (add_intermediate n ngf nl ud X)"
proof (cases n)
  case 0
  then show ?thesis using assms by simp
next
  case (Suc m)
  show ?thesis
    unfolding Suc add_intermediate_Suc by (simp add: init_middle)
qed

lemma stages_middle:
  assumes "is_block sub"
  shows "stages (UnetSkipConnectionBlock_init oc ic None sub False False nl ud) =
           (Intermediate, Some (oc, ic), Some (Layer (ConvTranspose2d (ic * 2) oc 4 2 1 (use_bias_of nl)))) # stages sub"
proof -
  obtain a t c where n1: "call_norm_layer nl ic = Norm c ic a t"
    using call_norm_layer_Norm by blast
  obtain a' t' c' where n2: "call_norm_layer nl oc = Norm c' oc a' t'"
    using call_norm_layer_Norm by blast
  obtain om ms where s: "sub = UnetSkipConnectionBlock om ms"
    using assms by (cases sub) auto
  show ?thesis
    by (simp add: init_middle n1 n2 s)
qed

lemma stages_inner:
  "stages (UnetSkipConnectionBlock_init oc ic None sub False True nl ud) =
           [(Innermost, Some (oc, ic), Some (Layer (ConvTranspose2d ic oc 4 2 1 (use_bias_of nl))))]"
proof -
  obtain a' t' c' where n2: "call_norm_layer nl oc = Norm c' oc a' t'"
    using call_norm_layer_Norm by blast
  show ?thesis
    by (simp add: init_inner n2)
qed

lemma stages_outer:
  assumes "is_block sub"
  shows "stages (UnetSkipConnectionBlock_init oc ic (Some inp) sub True im nl ud) =
           (Outermost, Some (inp, ic), Some (Layer (ConvTranspose2d (ic * 2) oc 4 2 1 True))) # stages sub"
proof -
  obtain om ms where s: "sub = UnetSkipConnectionBlock om ms"
    using assms by (cases sub) auto
  show ?thesis
    by (simp add: init_outer s)
qed

lemma stages_add_intermediate:
  assumes "is_block X"
  shows "stages (add_intermediate n ngf nl ud X) =
           replicate n (Intermediate, Some (ngf * 8, ngf * 8), Some (Layer (ConvTranspose2d (ngf * 8 * 2) (ngf * 8) 4 2 1 (use_bias_of nl))))
           @ stages X"
proof (induction n)
  case 0
  show ?case by simp
next
  case (Suc n)
  have "is_block (add_intermediate n ngf nl ud X)"
    using assms by (rule is_block_add_intermediate)
  then show ?case
    using Suc by (simp only: add_intermediate_Suc stages_middle replicate_Suc append_Cons)
qed

lemma is_block_init [simp]: "is_block (UnetSkipConnectionBlock_init oc ic inp sub om im nl ud)"
  by (simp add: UnetSkipConnectionBlock_init_def Let_def)

lemma stages_build_unet:
  "stages (build_unet input_nc output_nc num_downs ngf nl ud) =
       [(Outermost, Some (input_nc, ngf), Some (Layer (ConvTranspose2d (ngf * 2) output_nc 4 2 1 True))),
        (Intermediate, Some (ngf, ngf * 2),
           Some (Layer (ConvTranspose2d (ngf * 2 * 2) ngf 4 2 1 (use_bias_of nl)))),
        (Intermediate, Some (ngf * 2, ngf * 4),
           Some (Layer (ConvTranspose2d (ngf * 4 * 2) (ngf * 2) 4 2 1 (use_bias_of nl)))),
        (Intermediate, Some (ngf * 4, ngf * 8),
           Some (Layer (ConvTranspose2d (ngf * 8 * 2) (ngf * 4) 4 2 1 (use_bias_of nl))))]
       @ replicate (nat (num_downs - 5))
           (Intermediate, Some (ngf * 8, ngf * 8),
              Some (Layer (ConvTranspose2d (ngf * 8 * 2) (ngf * 8) 4 2 1 (use_bias_of nl))))
       @ [(Innermost, Some (ngf * 8, ngf * 8),
             Some (Layer (ConvTranspose2d (ngf * 8) (ngf * 8) 4 2 1 (use_bias_of nl))))]"
  by (simp add: build_unet_def Let_def stages_outer stages_middle stages_add_intermediate
      is_block_add_intermediate stages_inner)

text \<open>
  Claim C5. For every depth of at least 5, the build (lines 33 to 41) nests exactly
  \<open>num_downs\<close> blocks. Outermost first: the outermost block, mapping to \<open>output_nc\<close>
  channels; three blocks of widths \<open>ngf\<close>, \<open>ngf * 2\<close>, \<open>ngf * 4\<close>; \<open>num_downs - 5\<close>
  intermediate blocks of width \<open>ngf * 8\<close>; the innermost block, of width \<open>ngf * 8\<close>.
\<close>

theorem build_unet_stages:
  assumes "5 \<le> num_downs"
  shows "stages (build_unet input_nc output_nc num_downs ngf nl ud) =
       [(Outermost, Some (input_nc, ngf), Some (Layer (ConvTranspose2d (ngf * 2) output_nc 4 2 1 True))),
        (Intermediate, Some (ngf, ngf * 2),
           Some (Layer (ConvTranspose2d (ngf * 2 * 2) ngf 4 2 1 (use_bias_of nl)))),
        (Intermediate, Some (ngf * 2, ngf * 4),
           Some (Layer (ConvTranspose2d (ngf * 4 * 2) (ngf * 2) 4 2 1 (use_bias_of nl)))),
        (Intermediate, Some (ngf * 4, ngf * 8),
           Some (Layer (ConvTranspose2d (ngf * 8 * 2) (ngf * 4) 4 2 1 (use_bias_of nl))))]
       @ replicate (nat (num_downs - 5))
           (Intermediate, Some (ngf * 8, ngf * 8),
              Some (Layer (ConvTranspose2d (ngf * 8 * 2) (ngf * 8) 4 2 1 (use_bias_of nl))))
       @ [(Innermost, Some (ngf * 8, ngf * 8),
             Some (Layer (ConvTranspose2d (ngf * 8) (ngf * 8) 4 2 1 (use_bias_of nl))))]
     \<and> int (length (stages (build_unet input_nc output_nc num_downs ngf nl ud))) = num_downs"
proof -
  have "int (length (stages (build_unet input_nc output_nc num_downs ngf nl ud))) = num_downs"
    unfolding stages_build_unet using assms by simp
  with stages_build_unet show ?thesis by blast
qed

theorem build_unet_stages_witness:
  "(5::int) \<le> 8 \<and>
   stages (build_unet 3 1 8 64 (NormClass InstanceNorm2d) False) =
     [(Outermost, Some (3, 64), Some (Layer (ConvTranspose2d 128 1 4 2 1 True))),
      (Intermediate, Some (64, 128), Some (Layer (ConvTranspose2d 256 64 4 2 1 True))),
      (Intermediate, Some (128, 256), Some (Layer (ConvTranspose2d 512 128 4 2 1 True))),
      (Intermediate, Some (256, 512), Some (Layer (ConvTranspose2d 1024 256 4 2 1 True))),
      (Intermediate, Some (512, 512), Some (Layer (ConvTranspose2d 1024 512 4 2 1 True))),
      (Intermediate, Some (512, 512), Some (Layer (ConvTranspose2d 1024 512 4 2 1 True))),
      (Intermediate, Some (512, 512), Some (Layer (ConvTranspose2d 1024 512 4 2 1 True))),
      (Innermost, Some (512, 512), Some (Layer (ConvTranspose2d 512 512 4 2 1 True)))]
   \<and> int (length (stages (build_unet 3 1 8 64 (NormClass InstanceNorm2d) False))) = 8"
  using build_unet_stages [of 8 3 1 64 "NormClass InstanceNorm2d" False]
  by (simp add: numeral_3_eq_3)

lemma swap_middle:
  "swap_deconv (Suc k) (UnetSkipConnectionBlock_init oc ic None sub False False nl ud) =
     (case swap_deconv k sub of Inl e \<Rightarrow> Inl e
      | Inr sub' \<Rightarrow> Inr (swapped_block oc ic sub' nl ud))"
  by (cases ud) (simp_all add: init_middle swapped_block_def seq_getitem_def split: sum.splits)

lemma swap_inner:
  "swap_deconv (Suc k) (UnetSkipConnectionBlock_init oc ic None sub False True nl ud) = Inl IndexError"
  by (simp add: init_inner seq_getitem_def)

lemma swap6:
  "swap_deconv 6
     (UnetSkipConnectionBlock_init c1 d1 None
       (UnetSkipConnectionBlock_init c2 d2 None
         (UnetSkipConnectionBlock_init c3 d3 None
           (UnetSkipConnectionBlock_init c4 d4 None
             (UnetSkipConnectionBlock_init c5 d5 None
               (UnetSkipConnectionBlock_init c6 d6 None X False False nl u6)
               False False nl u5) False False nl u4) False False nl u3) False False nl u2)
       False False nl u1) =
   Inr (swapped_block c1 d1 (swapped_block c2 d2 (swapped_block c3 d3 (swapped_block c4 d4
         (swapped_block c5 d5 (swapped_block c6 d6 X nl u6) nl u5) nl u4) nl u3) nl u2) nl u1)"
proof -
  have six: "(6::nat) = Suc (Suc (Suc (Suc (Suc (Suc 0)))))" by simp
  show ?thesis
    unfolding six by (simp only: swap_middle swap_deconv.simps(1) sum.case)
qed

lemma build_and_swap_ok:
  assumes "8 \<le> num_downs"
  shows "build_and_swap input_nc output_nc num_downs ngf nl ud =
           Inr (swapped_unet input_nc output_nc (nat (num_downs - 8)) ngf nl ud)"
proof -
  have n: "nat (num_downs - 5) = Suc (Suc (Suc (nat (num_downs - 8))))"
    using assms by simp
  show ?thesis
    unfolding build_and_swap_def build_unet_def Let_def n add_intermediate_Suc init_outer
    by (simp add: seq_getitem_def swap6 swapped_unet_def)
qed


lemma stages_swapped_block:
  assumes "is_block sub"
  shows "stages (swapped_block oc ic sub nl ud) =
           (Intermediate, Some (oc, ic), Some (Upsample_init (ic * 2) oc 2)) # stages sub"
proof -
  obtain a t c where n1: "call_norm_layer nl ic = Norm c ic a t"
    using call_norm_layer_Norm by blast
  obtain a' t' c' where n2: "call_norm_layer nl oc = Norm c' oc a' t'"
    using call_norm_layer_Norm by blast
  obtain om ms where s: "sub = UnetSkipConnectionBlock om ms"
    using assms by (cases sub) auto
  show ?thesis
    by (cases ud) (simp_all add: swapped_block_def init_middle n1 n2 s Upsample_init_def)
qed

lemma is_block_swapped [simp]: "is_block (swapped_block oc ic sub nl ud)"
  by (simp add: swapped_block_def)

lemma erase_middle:
  "erase_decoders (UnetSkipConnectionBlock_init oc ic None sub False False nl ud) =
     UnetSkipConnectionBlock False
       ([Layer (LeakyReLU (2 / 10) True), Layer (Conv2d oc ic 4 2 1 (use_bias_of nl)),
         Layer (call_norm_layer nl ic), erase_decoders sub, Layer (ReLU True),
         NoneModule, Layer (call_norm_layer nl oc)] @ (if ud then [Layer (Dropout (1 / 2))] else []))"
proof -
  obtain a t c where n1: "call_norm_layer nl ic = Norm c ic a t"
    using call_norm_layer_Norm by blast
  obtain a' t' c' where n2: "call_norm_layer nl oc = Norm c' oc a' t'"
    using call_norm_layer_Norm by blast
  show ?thesis
    by (cases ud) (simp_all add: init_middle n1 n2)
qed

lemma erase_swapped_block:
  "erase_decoders (swapped_block oc ic sub nl ud) =
     UnetSkipConnectionBlock False
       ([Layer (LeakyReLU (2 / 10) True), Layer (Conv2d oc ic 4 2 1 (use_bias_of nl)),
         Layer (call_norm_layer nl ic), erase_decoders sub, Layer (ReLU True),
         NoneModule, Layer (call_norm_layer nl oc)] @ (if ud then [Layer (Dropout (1 / 2))] else []))"
proof -
  obtain a t c where n1: "call_norm_layer nl ic = Norm c ic a t"
    using call_norm_layer_Norm by blast
  obtain a' t' c' where n2: "call_norm_layer nl oc = Norm c' oc a' t'"
    using call_norm_layer_Norm by blast
  show ?thesis
    by (cases ud) (simp_all add: swapped_block_def init_middle n1 n2 Upsample_init_def)
qed

lemma erase_swapped_unet:
  assumes "8 \<le> num_downs"
  shows "erase_decoders (swapped_unet input_nc output_nc (nat (num_downs - 8)) ngf nl ud) =
         erase_decoders (build_unet input_nc output_nc num_downs ngf nl ud)"
proof -
  have n: "nat (num_downs - 5) = Suc (Suc (Suc (nat (num_downs - 8))))"
    using assms by simp
  have l: "erase_decoders (swapped_unet input_nc output_nc (nat (num_downs - 8)) ngf nl ud) =
      UnetSkipConnectionBlock True
       [Layer (Conv2d input_nc ngf 4 2 1 (use_bias_of nl)),
        erase_decoders (swapped_block ngf (ngf * 2)
          (swapped_block (ngf * 2) (ngf * 4)
            (swapped_block (ngf * 4) (ngf * 8)
              (swapped_block (ngf * 8) (ngf * 8)
                (swapped_block (ngf * 8) (ngf * 8)
                  (swapped_block (ngf * 8) (ngf * 8)
                    (add_intermediate (nat (num_downs - 8)) ngf nl ud
                       (UnetSkipConnectionBlock_init (ngf * 8) (ngf * 8) None NoneModule False True
                          nl False))
                    nl ud) nl ud) nl ud)
              nl False) nl False) nl False),
        Layer (ReLU True), NoneModule, Layer Tanh]"
    unfolding swapped_unet_def by (simp only: erase_decoders.simps list.map)
  have r: "erase_decoders (build_unet input_nc output_nc num_downs ngf nl ud) =
      UnetSkipConnectionBlock True
       [Layer (Conv2d input_nc ngf 4 2 1 (use_bias_of nl)),
        erase_decoders (UnetSkipConnectionBlock_init ngf (ngf * 2) None
          (UnetSkipConnectionBlock_init (ngf * 2) (ngf * 4) None
            (UnetSkipConnectionBlock_init (ngf * 4) (ngf * 8) None
              (UnetSkipConnectionBlock_init (ngf * 8) (ngf * 8) None
                (UnetSkipConnectionBlock_init (ngf * 8) (ngf * 8) None
                  (UnetSkipConnectionBlock_init (ngf * 8) (ngf * 8) None
                    (add_intermediate (nat (num_downs - 8)) ngf nl ud
                       (UnetSkipConnectionBlock_init (ngf * 8) (ngf * 8) None NoneModule False True
                          nl False))
                    False False nl ud) False False nl ud) False False nl ud)
              False False nl False) False False nl False) False False nl False),
        Layer (ReLU True), NoneModule, Layer Tanh]"
    unfolding build_unet_def Let_def n add_intermediate_Suc init_outer
    by (simp only: erase_decoders.simps list.map)
  show ?thesis
    unfolding l r by (simp only: erase_swapped_block erase_middle)
qed

lemma stages_swapped_unet:
  "stages (swapped_unet input_nc output_nc m ngf nl ud) =
       [(Outermost, Some (input_nc, ngf), Some (Layer (ConvTranspose2d (ngf * 2) output_nc 4 2 1 True))),
        (Intermediate, Some (ngf, ngf * 2), Some (Upsample_init (ngf * 2 * 2) ngf 2)),
        (Intermediate, Some (ngf * 2, ngf * 4), Some (Upsample_init (ngf * 4 * 2) (ngf * 2) 2)),
        (Intermediate, Some (ngf * 4, ngf * 8), Some (Upsample_init (ngf * 8 * 2) (ngf * 4) 2)),
        (Intermediate, Some (ngf * 8, ngf * 8), Some (Upsample_init (ngf * 8 * 2) (ngf * 8) 2)),
        (Intermediate, Some (ngf * 8, ngf * 8), Some (Upsample_init (ngf * 8 * 2) (ngf * 8) 2)),
        (Intermediate, Some (ngf * 8, ngf * 8), Some (Upsample_init (ngf * 8 * 2) (ngf * 8) 2))]
       @ replicate m
           (Intermediate, Some (ngf * 8, ngf * 8),
              Some (Layer (ConvTranspose2d (ngf * 8 * 2) (ngf * 8) 4 2 1 (use_bias_of nl))))
       @ [(Innermost, Some (ngf * 8, ngf * 8),
             Some (Layer (ConvTranspose2d (ngf * 8) (ngf * 8) 4 2 1 (use_bias_of nl))))]"
proof -
  have "stages (swapped_unet input_nc output_nc m ngf nl ud) =
          (Outermost, Some (input_nc, ngf), Some (Layer (ConvTranspose2d (ngf * 2) output_nc 4 2 1 True)))
          # stages (swapped_block ngf (ngf * 2)
          (swapped_block (ngf * 2) (ngf * 4)
            (swapped_block (ngf * 4) (ngf * 8)
              (swapped_block (ngf * 8) (ngf * 8)
                (swapped_block (ngf * 8) (ngf * 8)
                  (swapped_block (ngf * 8) (ngf * 8)
                    (add_intermediate m ngf nl ud
                       (UnetSkipConnectionBlock_init (ngf * 8) (ngf * 8) None NoneModule False True
                          nl False))
                    nl ud) nl ud) nl ud)
              nl False) nl False) nl False)"
    unfolding swapped_unet_def by (simp add: swapped_block_def)
  then show ?thesis
    by (simp add: stages_swapped_block stages_add_intermediate is_block_add_intermediate stages_inner)
qed

text \<open>
  Claim C1, as amended (depth at least 8 instead of 6). The build and the loop succeed,
  and in the resulting graph the up-sampling module of each of the six blocks next to the
  outermost one is an Upsample with the channels of the transposed convolution it
  replaced; the outermost block keeps its transposed convolution, so do the blocks
  further in, and nothing else in the graph has changed.
\<close>

theorem swap_replaces_six_decoders:
  assumes "8 \<le> num_downs"
  shows "\<exists>g. build_and_swap input_nc output_nc num_downs ngf nl ud = Inr g \<and>
     stages g =
       [(Outermost, Some (input_nc, ngf), Some (Layer (ConvTranspose2d (ngf * 2) output_nc 4 2 1 True))),
        (Intermediate, Some (ngf, ngf * 2), Some (Upsample_init (ngf * 2 * 2) ngf 2)),
        (Intermediate, Some (ngf * 2, ngf * 4), Some (Upsample_init (ngf * 4 * 2) (ngf * 2) 2)),
        (Intermediate, Some (ngf * 4, ngf * 8), Some (Upsample_init (ngf * 8 * 2) (ngf * 4) 2)),
        (Intermediate, Some (ngf * 8, ngf * 8), Some (Upsample_init (ngf * 8 * 2) (ngf * 8) 2)),
        (Intermediate, Some (ngf * 8, ngf * 8), Some (Upsample_init (ngf * 8 * 2) (ngf * 8) 2)),
        (Intermediate, Some (ngf * 8, ngf * 8), Some (Upsample_init (ngf * 8 * 2) (ngf * 8) 2))]
       @ replicate (nat (num_downs - 8))
           (Intermediate, Some (ngf * 8, ngf * 8),
              Some (Layer (ConvTranspose2d (ngf * 8 * 2) (ngf * 8) 4 2 1 (use_bias_of nl))))
       @ [(Innermost, Some (ngf * 8, ngf * 8),
             Some (Layer (ConvTranspose2d (ngf * 8) (ngf * 8) 4 2 1 (use_bias_of nl))))] \<and>
     erase_decoders g = erase_decoders (build_unet input_nc output_nc num_downs ngf nl ud)"
  using build_and_swap_ok [OF assms] stages_swapped_unet erase_swapped_unet [OF assms]
  by simp

theorem swap_replaces_six_decoders_witness:
  "(8::int) \<le> 8 \<and>
   (\<exists>g. build_and_swap 3 1 8 64 (NormClass InstanceNorm2d) False = Inr g \<and>
     stages g =
       [(Outermost, Some (3, 64), Some (Layer (ConvTranspose2d 128 1 4 2 1 True))),
        (Intermediate, Some (64, 128), Some (Upsample_init 256 64 2)),
        (Intermediate, Some (128, 256), Some (Upsample_init 512 128 2)),
        (Intermediate, Some (256, 512), Some (Upsample_init 1024 256 2)),
        (Intermediate, Some (512, 512), Some (Upsample_init 1024 512 2)),
        (Intermediate, Some (512, 512), Some (Upsample_init 1024 512 2)),
        (Intermediate, Some (512, 512), Some (Upsample_init 1024 512 2)),
        (Innermost, Some (512, 512), Some (Layer (ConvTranspose2d 512 512 4 2 1 True)))] \<and>
     erase_decoders g = erase_decoders (build_unet 3 1 8 64 (NormClass InstanceNorm2d) False))"
  using swap_replaces_six_decoders [of 8 3 1 64 "NormClass InstanceNorm2d" False]
  by simp

text \<open>
  Claim C1 as stated fails: with depth 6 the fifth iteration of the loop reaches the
  innermost block, whose Sequential has five entries, and \<open>base.model[5]\<close> raises
  IndexError. The same holds for every depth below 8.
\<close>

theorem depth_six_construction_raises:
  "(6::int) \<ge> 6 \<and>
   UnetGenerator_init (\<lambda>m cur new. Inr new) (\<lambda>m. ())
     \<lparr>dirname = [], files = (\<lambda>p. None), stdout = []\<rparr>
     3 1 6 64 (NormClass InstanceNorm2d) False = Inl IndexError"
  by (simp add: UnetGenerator_init_def build_and_swap_def build_unet_def Let_def
      UnetSkipConnectionBlock_init_def seq_getitem_def eval_nat_numeral)

lemma depth_seven_construction_raises:
  "build_and_swap 3 1 7 64 (NormClass InstanceNorm2d) False = Inl IndexError"
  by (simp add: build_and_swap_def build_unet_def Let_def
      UnetSkipConnectionBlock_init_def seq_getitem_def eval_nat_numeral)

lemma construction_raises_below_eight:
  assumes "num_downs < 8"
  shows "build_and_swap input_nc output_nc num_downs ngf nl ud = Inl IndexError"
proof -
  have "nat (num_downs - 5) = 0 \<or> nat (num_downs - 5) = Suc 0 \<or> nat (num_downs - 5) = Suc (Suc 0)"
    using assms by arith
  then show ?thesis
  proof (elim disjE)
    assume "nat (num_downs - 5) = 0"
    then show ?thesis
      by (simp add: build_and_swap_def build_unet_def Let_def
      UnetSkipConnectionBlock_init_def seq_getitem_def eval_nat_numeral)
  next
    assume "nat (num_downs - 5) = Suc 0"
    then show ?thesis
      by (cases ud) (simp_all add: build_and_swap_def build_unet_def Let_def
      UnetSkipConnectionBlock_init_def seq_getitem_def eval_nat_numeral)
  next
    assume "nat (num_downs - 5) = Suc (Suc 0)"
    then show ?thesis
      by (cases ud) (simp_all add: build_and_swap_def build_unet_def Let_def
      UnetSkipConnectionBlock_init_def seq_getitem_def eval_nat_numeral)
  qed
qed

lemma own_convs_init:
  assumes "own_convs [sub] = []"
  shows "own_convs (block_model (UnetSkipConnectionBlock_init oc ic inp sub om im nl ud)) =
           [Conv2d (case inp of None \<Rightarrow> oc | Some c \<Rightarrow> c) ic 4 2 1 (use_bias_of nl),
            ConvTranspose2d (if \<not> om \<and> im then ic else ic * 2) oc 4 2 1 (om \<or> use_bias_of nl)]"
proof -
  obtain a t c where n1: "call_norm_layer nl ic = Norm c ic a t"
    using call_norm_layer_Norm by blast
  obtain a' t' c' where n2: "call_norm_layer nl oc = Norm c' oc a' t'"
    using call_norm_layer_Norm by blast
  have s: "own_convs (sub # ms) = own_convs ms" for ms
    using assms by (induction "[sub]" rule: own_convs.induct) auto
  show ?thesis
    by (simp add: UnetSkipConnectionBlock_init_def Let_def n1 n2 s)
qed

lemma use_bias_of_class: "use_bias_of nl = (norm_class_of nl = InstanceNorm2d)"
  by (cases nl) auto

text \<open>
  Claim C6, as amended. A convolution of a block carries a bias exactly when the class
  behind \<open>norm_layer\<close> (the class itself, or the \<open>func\<close> of a partial) is InstanceNorm2d,
  whatever the \<open>affine\<close> keyword says; the transposed convolution of an outermost block
  always carries one. (\<open>submodule\<close> is not itself a bare convolution layer.)
\<close>

theorem bias_follows_norm_class:
  assumes "own_convs [sub] = []"
  shows "\<forall>c \<in> set (own_convs (block_model (UnetSkipConnectionBlock_init oc ic inp sub om im nl ud))).
           has_bias c = (norm_class_of nl = InstanceNorm2d \<or> (om \<and> is_transposed c))"
  unfolding own_convs_init [OF assms] use_bias_of_class by auto

theorem bias_follows_norm_class_witness:
  "own_convs [NoneModule] = [] \<and>
   ConvTranspose2d 512 512 4 2 1 False \<in>
     set (own_convs (block_model (UnetSkipConnectionBlock_init 512 512 None NoneModule False True
                   (Partial BatchNorm2d (Some False) None) False))) \<and>
   has_bias (ConvTranspose2d 512 512 4 2 1 False) =
     (norm_class_of (Partial BatchNorm2d (Some False) None) = InstanceNorm2d
        \<or> (False \<and> is_transposed (ConvTranspose2d 512 512 4 2 1 False)))"
  using bias_follows_norm_class [of NoneModule 512 512 None False True
      "Partial BatchNorm2d (Some False) None" False]
  by (simp add: UnetSkipConnectionBlock_init_def Let_def)

text \<open>
  Claim C6 as stated fails: with \<open>functools.partial(InstanceNorm2d, affine=True)\<close> the
  normalization has learned affine parameters and both convolutions carry a bias; and
  in an outermost block with BatchNorm2d (affine by default) the transposed convolution
  carries a bias while the down-sampling convolution does not.
\<close>

theorem bias_despite_affine_norm:
  "own_convs (block_model (UnetSkipConnectionBlock_init 512 512 None NoneModule False True
       (Partial InstanceNorm2d (Some True) None) False)) =
     [Conv2d 512 512 4 2 1 True, ConvTranspose2d 512 512 4 2 1 True]
   \<and> norm_affine (call_norm_layer (Partial InstanceNorm2d (Some True) None) 512)
   \<and> own_convs (block_model (UnetSkipConnectionBlock_init 1 64 (Some 3) NoneModule True False
       (NormClass BatchNorm2d) False)) =
     [Conv2d 3 64 4 2 1 False, ConvTranspose2d 128 1 4 2 1 True]
   \<and> norm_affine (call_norm_layer (NormClass BatchNorm2d) 64)"
  by (simp add: UnetSkipConnectionBlock_init_def Let_def)

text \<open>
  Claim C7. When the file at the module-relative path does not exist, \<open>load_weights\<close>
  raises nothing, prints the two warning lines and returns the generator unchanged; so
  whenever the graph was built, the constructor returns a generator whose parameters are
  those of the framework's initialization.
\<close>

theorem load_weights_missing_file:
  assumes "files w (checkpoint_path w ''models/Anime2Sketch.pth'') = None"
  shows "load_weights load_state_dict self ''models/Anime2Sketch.pth'' w =
           Inr (self, w\<lparr>stdout := stdout w @
                  [replicate 32 CHR ''-'' @ '' Warnning '' @ replicate 32 CHR ''-'',
                   ''Weight file '' @ [CHR 0x27] @ checkpoint_path w ''models/Anime2Sketch.pth''
                     @ [CHR 0x27] @ '' not exist !!!'']\<rparr>)
       \<and> (\<forall>m. build_and_swap input_nc output_nc num_downs ngf nl ud = Inr m \<longrightarrow>
             UnetGenerator_init load_state_dict init w input_nc output_nc num_downs ngf nl ud =
               Inr (\<lparr>model = m, state_dict = init m\<rparr>, w\<lparr>stdout := stdout w @
                  [replicate 32 CHR ''-'' @ '' Warnning '' @ replicate 32 CHR ''-'',
                   ''Weight file '' @ [CHR 0x27] @ checkpoint_path w ''models/Anime2Sketch.pth''
                     @ [CHR 0x27] @ '' not exist !!!'']\<rparr>))"
proof -
  have lw: "load_weights load_state_dict g ''models/Anime2Sketch.pth'' w =
           Inr (g, w\<lparr>stdout := stdout w @
                  [replicate 32 CHR ''-'' @ '' Warnning '' @ replicate 32 CHR ''-'',
                   ''Weight file '' @ [CHR 0x27] @ checkpoint_path w ''models/Anime2Sketch.pth''
                     @ [CHR 0x27] @ '' not exist !!!'']\<rparr>)" for g :: "'a UnetGenerator"
    using assms by (simp add: load_weights_def Let_def print_def checkpoint_path_def)
  show ?thesis
    by (simp add: lw UnetGenerator_init_def)
qed

theorem load_weights_missing_file_witness:
  "files \<lparr>dirname = ''/opt/a2s'', files = (\<lambda>p. None), stdout = []\<rparr>
     (checkpoint_path \<lparr>dirname = ''/opt/a2s'', files = (\<lambda>p. None :: (error + unit) option), stdout = []\<rparr>
        ''models/Anime2Sketch.pth'') = None
   \<and> load_weights (\<lambda>m cur new. Inr new) \<lparr>model = NoneModule, state_dict = ()\<rparr> ''models/Anime2Sketch.pth''
       \<lparr>dirname = ''/opt/a2s'', files = (\<lambda>p. None), stdout = []\<rparr> =
     Inr (\<lparr>model = NoneModule, state_dict = ()\<rparr>,
          \<lparr>dirname = ''/opt/a2s'', files = (\<lambda>p. None), stdout =
             [''-------------------------------- Warnning --------------------------------'',
              ''Weight file '' @ [CHR 0x27] @ ''/opt/a2s/models/Anime2Sketch.pth'' @ [CHR 0x27] @ '' not exist !!!'']\<rparr>)
   \<and> (\<exists>g w'. UnetGenerator_init (\<lambda>m cur new. Inr new) (\<lambda>m. ())
               \<lparr>dirname = ''/opt/a2s'', files = (\<lambda>p. None), stdout = []\<rparr>
               3 1 8 64 (NormClass InstanceNorm2d) False = Inr (g, w') \<and> state_dict g = ()
               \<and> length (stdout w') = 2)"
  using load_weights_missing_file [of "\<lparr>dirname = ''/opt/a2s'', files = (\<lambda>p. None :: (error + unit) option), stdout = []\<rparr>"
      "\<lambda>m cur new. Inr new" "\<lparr>model = NoneModule, state_dict = ()\<rparr>" 3 1 8 64 "NormClass InstanceNorm2d" False "\<lambda>m. ()"]
    build_and_swap_ok [of 8 3 1 64 "NormClass InstanceNorm2d" False]
  by (simp add: checkpoint_path_def eval_nat_numeral)

section \<open>Properties of the forward pass on shapes\<close>

lemma and_then_simps [simp]:
  "and_then (Inl e) f = Inl e" "and_then (Inr v) f = f v"
  by (simp_all add: and_then_def)

lemma shape_ops_simps [simp]:
  "tensor_size shape_ops = (\<lambda>s. s)" "call shape_ops = layer_shape"
  "F_conv2d shape_ops = conv2d_shape" "tensor_view shape_ops = view_shape"
  "torch_cat shape_ops = cat_shape" "tensor_add shape_ops = add_shape"
  "pointwise shape_ops = (\<lambda>f s. s)"
  by (simp_all add: shape_ops_def)

text \<open>Shapes of the single layers the program uses.\<close>

lemma downconv_shape:
  assumes "0 < h" "0 < w"
  shows "layer_shape (Conv2d c co 4 2 1 b) (n, c, 2 * h, 2 * w) = Inr (n, co, h, w)"
proof -
  have "(2 * h + 2 * 1 - 4) div 2 + 1 = h" "(2 * w + 2 * 1 - 4) div 2 + 1 = w"
    using assms by simp_all
  then show ?thesis using assms by simp
qed

lemma upconv_shape:
  assumes "0 < h" "0 < w"
  shows "layer_shape (ConvTranspose2d c co 4 2 1 b) (n, c, h, w) = Inr (n, co, 2 * h, 2 * w)"
proof -
  have "(h - 1) * 2 + 4 - 2 * 1 = 2 * h" "(w - 1) * 2 + 4 - 2 * 1 = 2 * w"
    using assms by (simp_all add: algebra_simps) 
  moreover have "\<not> (h - 1) * 2 + 4 \<le> 2 * 1" "\<not> (w - 1) * 2 + 4 \<le> 2 * 1" by simp_all
  ultimately show ?thesis using assms by simp
qed

lemma norm_shape:
  assumes "2 \<le> h" "2 \<le> w"
  shows "layer_shape (call_norm_layer nl c) (n, c, h, w) = Inr (n, c, h, w)"
proof -
  have "h * w \<noteq> 1" using assms by simp
  moreover have "n * h * w \<noteq> 1" using assms
    by (metis mult.assoc mult_is_0 nat_mult_eq_1_iff not_numeral_le_zero numeral_le_one_iff semiring_norm(69))
  ultimately show ?thesis
    by (cases nl; cases "norm_class_of nl") (auto split: option.splits)
qed

lemma nat_int_mult [simp]: "nat (int a * int b) = a * b"
  by (simp add: nat_mult_distrib)

lemma view_flatten_shape:
  assumes "0 < h" "0 < w"
  shows "view_shape (n, c, h, w) (- 1, 1, int h, int w) = Inr (n * c, 1, h, w)"
proof -
  have "n * c * h * w mod (h * w) = 0" by simp
  moreover have "n * c * h * w div (h * w) = n * c" using assms by simp
  ultimately show ?thesis using assms
    by (simp add: view_shape_def Let_def)
qed

lemma view_back_shape:
  "view_shape (n * c, Suc 0, h, w) (int n, int c, int h, int w) = Inr (n, c, h, w)"
  by (simp add: view_shape_def Let_def nat_mult_distrib)

lemma Smooth_shape:
  assumes "0 < h" "0 < w"
  shows "Smooth_forward shape_ops Smooth_init (n, c, h, w) = Inr (n, c, h, w)"
  using assms
  by (simp add: Smooth_forward_def Smooth_init_def view_flatten_shape view_back_shape conv2d_shape_def)

lemma Smooth_shape_zero:
  assumes "h = 0 \<or> w = 0"
  shows "Smooth_forward shape_ops Smooth_init (n, c, h, w) = Inl RuntimeError"
  using assms
  by (auto simp add: Smooth_forward_def Smooth_init_def view_shape_def Let_def)

lemma layer_forward_shape:
  "layer_forward shape_ops l s =
     (case layer_shape l s of Inl e \<Rightarrow> Inl e
      | Inr y \<Rightarrow> Inr (if inplace l then y else s, y, inplace l))"
  by (simp add: layer_forward_def and_then_def split: sum.splits)

lemma mlp_shape:
  assumes "0 < h" "0 < w"
  shows "Sequential_forward shape_ops
           [Layer (Conv2d co (4 * co) 1 1 0 True), Layer GELU, Layer (Conv2d (4 * co) co 1 1 0 True)]
           (n, co, h, w) (n, co, h, w) True = Inr ((n, co, h, w), (n, co, h, w), False)"
  using assms by (simp add: layer_forward_shape)

lemma Upsample_shape_ok:
  assumes "0 < h" "0 < w" "0 < ci"
  shows "forward shape_ops (Upsample_init ci co 2) (n, ci, h, w) =
           Inr ((n, ci, h, w), (n, co, 2 * h, 2 * w), False)"
proof -
  have p: "0 < 2 * h" "0 < 2 * w" using assms by simp_all
  have up: "layer_forward shape_ops (nn_Upsample 2) (n, ci, h, w) =
              Inr ((n, ci, h, w), (n, ci, 2 * h, 2 * w), False)"
    using assms by (simp add: layer_forward_shape mult.commute)
  have c3: "layer_forward shape_ops (Conv2d ci co 3 1 1 True) (n, ci, 2 * h, 2 * w) =
              Inr ((n, ci, 2 * h, 2 * w), (n, co, 2 * h, 2 * w), False)"
    using assms by (simp add: layer_forward_shape)
  have ad: "tensor_add shape_ops (n, co, 2 * h, 2 * w) (n, co, 2 * h, 2 * w) = Inr (n, co, 2 * h, 2 * w)"
    by (simp add: add_shape_def broadcast_dim_def)
  show ?thesis
    by (simp only: Upsample_init_def forward.simps up c3 Smooth_shape [OF p] mlp_shape [OF p] ad
        sum.case prod.case)
qed

lemma Upsample_shape_bad:
  assumes "c \<noteq> ci \<or> h = 0 \<or> w = 0" "0 < ci"
  shows "forward shape_ops (Upsample_init ci co 2) (n, c, h, w) = Inl RuntimeError"
proof (cases "c = 0 \<or> h = 0 \<or> w = 0")
  case True
  then have up: "layer_forward shape_ops (nn_Upsample 2) (n, c, h, w) = Inl RuntimeError"
    by (auto simp add: layer_forward_shape)
  show ?thesis
    by (simp only: Upsample_init_def forward.simps up sum.case)
next
  case False
  then have pos: "0 < 2 * h" "0 < 2 * w" and ne: "c \<noteq> ci" using assms by auto
  have up: "layer_forward shape_ops (nn_Upsample 2) (n, c, h, w) =
              Inr ((n, c, h, w), (n, c, 2 * h, 2 * w), False)"
    using False by (simp add: layer_forward_shape mult.commute)
  have c3: "layer_forward shape_ops (Conv2d ci co 3 1 1 True) (n, c, 2 * h, 2 * w) = Inl RuntimeError"
    using ne by (simp add: layer_forward_shape)
  show ?thesis
    by (simp only: Upsample_init_def forward.simps up c3 Smooth_shape [OF pos] sum.case prod.case)
qed

lemma upconv_shape_bad:
  assumes "c \<noteq> ci \<or> h = 0 \<or> w = 0"
  shows "layer_shape (ConvTranspose2d ci co 4 2 1 b) (n, c, h, w) = Inl RuntimeError"
  using assms by auto

lemma Upsample_same_shape_as_deconv:
  assumes "0 < ci"
  shows "forward shape_ops (Upsample_init ci co 2) s =
         forward shape_ops (Layer (ConvTranspose2d ci co 4 2 1 b)) s"
proof -
  obtain n c h w where s: "s = (n, c, h, w)" by (cases s) auto
  show ?thesis
  proof (cases "c \<noteq> ci \<or> h = 0 \<or> w = 0")
    case True
    then show ?thesis
      unfolding s using assms
      by (simp only: Upsample_shape_bad upconv_shape_bad forward.simps layer_forward_shape sum.case)
  next
    case False
    then have p: "0 < h" "0 < w" "c = ci" by auto
    show ?thesis
      unfolding s p(3)
      by (simp only: Upsample_shape_ok [OF p(1) p(2) assms] upconv_shape [OF p(1) p(2)]
          forward.simps layer_forward_shape sum.case inplace.simps if_False)
  qed
qed

text \<open>Modules with the same forward pass can be exchanged in a Sequential and in a block.\<close>

lemma Sequential_forward_cong:
  assumes "list_all2 (\<lambda>u v. \<forall>s. forward ops u s = forward ops v s) ms ms'"
  shows "Sequential_forward ops ms x cur al = Sequential_forward ops ms' x cur al"
  using assms
proof (induction arbitrary: x cur al rule: list_all2_induct)
  case Nil
  show ?case by simp
next
  case (Cons u us v vs)
  then show ?case by (simp split: sum.splits)
qed

lemma block_forward_cong:
  assumes "list_all2 (\<lambda>u v. \<forall>s. forward ops u s = forward ops v s) ms ms'"
  shows "forward ops (UnetSkipConnectionBlock om ms) s = forward ops (UnetSkipConnectionBlock om ms') s"
  by (simp add: Sequential_forward_cong [OF assms])

lemma swapped_block_same_shape:
  assumes "\<And>s. forward shape_ops sub s = forward shape_ops sub' s" "0 < ic"
  shows "forward shape_ops (swapped_block oc ic sub nl ud) s =
         forward shape_ops (UnetSkipConnectionBlock_init oc ic None sub' False False nl ud) s"
proof -
  have u: "forward shape_ops (Upsample_init (ic * 2) oc 2) s =
         forward shape_ops (Layer (ConvTranspose2d (ic * 2) oc 4 2 1 (use_bias_of nl))) s" for s
    by (rule Upsample_same_shape_as_deconv) (use assms(2) in simp)
  show ?thesis
    unfolding swapped_block_def init_middle block_model.simps
    by (cases ud; intro block_forward_cong) (simp_all add: assms(1) u del: forward.simps)
qed

lemma layer_forward_simple [simp]:
  "layer_forward shape_ops (LeakyReLU sl b) s = Inr (s, s, b)"
  "layer_forward shape_ops (ReLU b) s = Inr (s, s, b)"
  "layer_forward shape_ops Tanh s = Inr (s, s, False)"
  "layer_forward shape_ops (Dropout pr) s = Inr (s, s, False)"
  by (cases s; simp add: layer_forward_shape)+

lemma downconv_forward:
  assumes "0 < h" "0 < w"
  shows "layer_forward shape_ops (Conv2d c co 4 2 1 b) (n, c, 2 * h, 2 * w) =
           Inr ((n, c, 2 * h, 2 * w), (n, co, h, w), False)"
  by (simp only: layer_forward_shape downconv_shape [OF assms] sum.case inplace.simps if_False)

lemma upconv_forward:
  assumes "0 < h" "0 < w"
  shows "layer_forward shape_ops (ConvTranspose2d c co 4 2 1 b) (n, c, h, w) =
           Inr ((n, c, h, w), (n, co, 2 * h, 2 * w), False)"
  by (simp only: layer_forward_shape upconv_shape [OF assms] sum.case inplace.simps if_False)

lemma norm_forward:
  assumes "2 \<le> h" "2 \<le> w"
  shows "layer_forward shape_ops (call_norm_layer nl c) (n, c, h, w) =
           Inr ((n, c, h, w), (n, c, h, w), False)"
proof -
  obtain a t k where "call_norm_layer nl c = Norm k c a t"
    using call_norm_layer_Norm by blast
  then have "inplace (call_norm_layer nl c) = False" by simp
  then show ?thesis
    by (simp only: layer_forward_shape norm_shape [OF assms] sum.case if_False)
qed

lemma halves:
  assumes "0 < h" "2 ^ Suc k dvd (h::nat)"
  obtains h' where "h = 2 * h'" "0 < h'" "2 ^ k dvd h'"
proof -
  from assms(2) obtain q where "h = 2 ^ Suc k * q" by (auto simp: dvd_def)
  then have "h = 2 * (2 ^ k * q)" by simp
  moreover have "0 < 2 ^ k * q" using assms(1) \<open>h = 2 * (2 ^ k * q)\<close> by simp
  moreover have "2 ^ k dvd 2 ^ k * q" by simp
  ultimately show ?thesis using that by blast
qed

lemma cat_same [simp]: "cat_shape (n, c, h, w) (n, c', h, w) = Inr (n, c + c', h, w)"
  by (simp add: cat_shape_def)

lemma inner_ok: "skip_ok (UnetSkipConnectionBlock_init c ic None sub False True nl ud) c 1"
  unfolding skip_ok_def
proof (intro allI impI)
  fix n h w :: nat
  assume "0 < h" "0 < w" "2 ^ 1 dvd h" "2 ^ 1 dvd w"
  then obtain h' w' where h: "h = 2 * h'" "0 < h'" and w: "w = 2 * w'" "0 < w'"
    by (auto simp: dvd_def)
  have g: "2 \<le> 2 * h'" "2 \<le> 2 * w'" using h w by simp_all
  show "forward shape_ops (UnetSkipConnectionBlock_init c ic None sub False True nl ud) (n, c, h, w) =
          Inr ((n, c, h, w), (n, 2 * c, h, w), False)"
    unfolding init_inner h(1) w(1)
    by (simp add: downconv_forward [OF h(2) w(2)] upconv_forward [OF h(2) w(2)] norm_forward [OF g]
        del: One_nat_def)
qed

lemma middle_ok:
  assumes "skip_ok sub ic k" "1 \<le> k"
  shows "skip_ok (UnetSkipConnectionBlock_init c ic None sub False False nl ud) c (Suc k)"
  unfolding skip_ok_def
proof (intro allI impI)
  fix n h w :: nat
  assume a: "0 < h" "0 < w" "2 ^ Suc k dvd h" "2 ^ Suc k dvd w"
  obtain h' where h: "h = 2 * h'" "0 < h'" "2 ^ k dvd h'" using halves [OF a(1) a(3)] by blast
  obtain w' where w: "w = 2 * w'" "0 < w'" "2 ^ k dvd w'" using halves [OF a(2) a(4)] by blast
  have "2 dvd h'" "2 dvd w'"
    using h(3) w(3) assms(2) by (metis dvd_trans dvd_power_le dvd_refl power_one_right)+
  then have g': "2 \<le> h'" "2 \<le> w'" using h(2) w(2) by (auto simp: dvd_def)
  have g: "2 \<le> 2 * h'" "2 \<le> 2 * w'" using h w by simp_all
  have s: "forward shape_ops sub (n, ic, h', w') = Inr ((n, ic, h', w'), (n, 2 * ic, h', w'), False)"
    using assms(1) h w by (simp add: skip_ok_def)
  have u: "layer_forward shape_ops (ConvTranspose2d (ic * 2) c 4 2 1 (use_bias_of nl)) (n, 2 * ic, h', w') =
           Inr ((n, 2 * ic, h', w'), (n, c, 2 * h', 2 * w'), False)"
    using upconv_forward [OF h(2) w(2), of "2 * ic"] by (simp add: mult.commute)
  show "forward shape_ops (UnetSkipConnectionBlock_init c ic None sub False False nl ud) (n, c, h, w) =
          Inr ((n, c, h, w), (n, 2 * c, h, w), False)"
    unfolding init_middle h(1) w(1)
    by (cases ud)
       (simp_all add: downconv_forward [OF h(2) w(2)] u norm_forward [OF g] norm_forward [OF g'] s
        del: One_nat_def)
qed

lemma add_intermediate_ok:
  assumes "skip_ok X (ngf * 8) k" "1 \<le> k"
  shows "skip_ok (add_intermediate m ngf nl ud X) (ngf * 8) (k + m)"
proof (induction m)
  case 0
  show ?case using assms(1) by simp
next
  case (Suc m)
  have "1 \<le> k + m" using assms(2) by simp
  from middle_ok [OF Suc this] show ?case
    by (simp only: add_intermediate_Suc add_Suc_right)
qed

lemma build_unet_shape:
  assumes "5 \<le> num_downs" "0 < h" "0 < w" "2 ^ nat num_downs dvd h" "2 ^ nat num_downs dvd w"
  shows "forward shape_ops (build_unet input_nc output_nc num_downs ngf nl ud) (n, input_nc, h, w) =
           Inr ((n, input_nc, h, w), (n, output_nc, h, w), False)"
proof -
  define m where "m = nat (num_downs - 5)"
  have d: "nat num_downs = Suc (Suc (Suc (Suc (1 + m))))" using assms(1) by (simp add: m_def)
  obtain h' where h: "h = 2 * h'" "0 < h'" "2 ^ Suc (Suc (Suc (1 + m))) dvd h'"
    using halves [OF assms(2)] assms(4) unfolding d by blast
  obtain w' where w: "w = 2 * w'" "0 < w'" "2 ^ Suc (Suc (Suc (1 + m))) dvd w'"
    using halves [OF assms(3)] assms(5) unfolding d by blast
  have "skip_ok (add_intermediate m ngf nl ud
            (UnetSkipConnectionBlock_init (ngf * 8) (ngf * 8) None NoneModule False True nl False))
          (ngf * 8) (1 + m)"
    by (rule add_intermediate_ok [OF inner_ok]) simp
  then have "skip_ok (UnetSkipConnectionBlock_init (ngf * 4) (ngf * 8) None (add_intermediate m ngf nl ud
            (UnetSkipConnectionBlock_init (ngf * 8) (ngf * 8) None NoneModule False True nl False))
              False False nl False) (ngf * 4) (Suc (1 + m))"
    by (rule middle_ok) simp
  then have "skip_ok (UnetSkipConnectionBlock_init (ngf * 2) (ngf * 4) None
           (UnetSkipConnectionBlock_init (ngf * 4) (ngf * 8) None (add_intermediate m ngf nl ud
            (UnetSkipConnectionBlock_init (ngf * 8) (ngf * 8) None NoneModule False True nl False))
              False False nl False) False False nl False) (ngf * 2) (Suc (Suc (1 + m)))"
    by (rule middle_ok) simp
  then have "skip_ok (UnetSkipConnectionBlock_init ngf (ngf * 2) None
          (UnetSkipConnectionBlock_init (ngf * 2) (ngf * 4) None
           (UnetSkipConnectionBlock_init (ngf * 4) (ngf * 8) None (add_intermediate m ngf nl ud
            (UnetSkipConnectionBlock_init (ngf * 8) (ngf * 8) None NoneModule False True nl False))
              False False nl False) False False nl False) False False nl False) ngf (Suc (Suc (Suc (1 + m))))"
    by (rule middle_ok) simp
  then have s: "forward shape_ops (UnetSkipConnectionBlock_init ngf (ngf * 2) None
          (UnetSkipConnectionBlock_init (ngf * 2) (ngf * 4) None
           (UnetSkipConnectionBlock_init (ngf * 4) (ngf * 8) None (add_intermediate m ngf nl ud
            (UnetSkipConnectionBlock_init (ngf * 8) (ngf * 8) None NoneModule False True nl False))
              False False nl False) False False nl False) False False nl False) (n, ngf, h', w') =
       Inr ((n, ngf, h', w'), (n, 2 * ngf, h', w'), False)"
    using h w by (simp add: skip_ok_def)
  have u: "layer_forward shape_ops (ConvTranspose2d (ngf * 2) output_nc 4 2 1 True) (n, 2 * ngf, h', w') =
           Inr ((n, 2 * ngf, h', w'), (n, output_nc, 2 * h', 2 * w'), False)"
    using upconv_forward [OF h(2) w(2), of "2 * ngf"] by (simp add: mult.commute)
  show ?thesis
    unfolding build_unet_def Let_def m_def [symmetric] init_outer h(1) w(1)
    by (simp add: downconv_forward [OF h(2) w(2)] s u del: One_nat_def)
qed

lemma blocks_Layer_norm [simp]: "blocks (Layer l) = []"
  by simp

lemma blocks_middle:
  "blocks (UnetSkipConnectionBlock_init oc ic None sub False False nl ud) =
     UnetSkipConnectionBlock_init oc ic None sub False False nl ud # blocks sub"
  by (cases ud) (simp_all add: init_middle)

lemma blocks_swapped:
  "blocks (swapped_block oc ic sub nl ud) = swapped_block oc ic sub nl ud # blocks sub"
  by (cases ud) (simp_all add: swapped_block_def init_middle Upsample_init_def)

lemma blocks_outer_list:
  "blocks (UnetSkipConnectionBlock True [Layer a, B, Layer b, Layer c, Layer d]) =
     UnetSkipConnectionBlock True [Layer a, B, Layer b, Layer c, Layer d] # blocks B"
  by simp

lemma build_unet_unfold:
  assumes "8 \<le> num_downs"
  shows "build_unet input_nc output_nc num_downs ngf nl ud =
      UnetSkipConnectionBlock True
       [Layer (Conv2d input_nc ngf 4 2 1 (use_bias_of nl)),
        UnetSkipConnectionBlock_init ngf (ngf * 2) None
          (UnetSkipConnectionBlock_init (ngf * 2) (ngf * 4) None
            (UnetSkipConnectionBlock_init (ngf * 4) (ngf * 8) None
              (UnetSkipConnectionBlock_init (ngf * 8) (ngf * 8) None
                (UnetSkipConnectionBlock_init (ngf * 8) (ngf * 8) None
                  (UnetSkipConnectionBlock_init (ngf * 8) (ngf * 8) None
                    (add_intermediate (nat (num_downs - 8)) ngf nl ud
                       (UnetSkipConnectionBlock_init (ngf * 8) (ngf * 8) None NoneModule False True
                          nl False))
                    False False nl ud) False False nl ud) False False nl ud)
              False False nl False) False False nl False) False False nl False,
        Layer (ReLU True), Layer (ConvTranspose2d (ngf * 2) output_nc 4 2 1 True), Layer Tanh]"
proof -
  have n: "nat (num_downs - 5) = Suc (Suc (Suc (nat (num_downs - 8))))"
    using assms by simp
  show ?thesis
    unfolding build_unet_def Let_def n add_intermediate_Suc init_outer ..
qed


lemma swapped_chain_same_shape:
  assumes "0 < ngf"
  shows "forward shape_ops
          (swapped_block ngf (ngf * 2)
            (swapped_block (ngf * 2) (ngf * 4)
              (swapped_block (ngf * 4) (ngf * 8)
                (swapped_block (ngf * 8) (ngf * 8)
                  (swapped_block (ngf * 8) (ngf * 8)
                    (swapped_block (ngf * 8) (ngf * 8) X nl ud) nl ud) nl ud)
                nl False) nl False) nl False) t =
         forward shape_ops
          (UnetSkipConnectionBlock_init ngf (ngf * 2) None
            (UnetSkipConnectionBlock_init (ngf * 2) (ngf * 4) None
              (UnetSkipConnectionBlock_init (ngf * 4) (ngf * 8) None
                (UnetSkipConnectionBlock_init (ngf * 8) (ngf * 8) None
                  (UnetSkipConnectionBlock_init (ngf * 8) (ngf * 8) None
                    (UnetSkipConnectionBlock_init (ngf * 8) (ngf * 8) None X False False nl ud)
                    False False nl ud) False False nl ud)
                False False nl False) False False nl False) False False nl False) t"
proof -
  have p: "0 < ngf * 8" "0 < ngf * 4" "0 < ngf * 2" using assms by simp_all
  show ?thesis
    by (intro swapped_block_same_shape refl p)
qed

lemma swapped_unet_same_shape:
  assumes "8 \<le> num_downs" "0 < ngf"
  shows "forward shape_ops (swapped_unet input_nc output_nc (nat (num_downs - 8)) ngf nl ud) s =
         forward shape_ops (build_unet input_nc output_nc num_downs ngf nl ud) s"
  unfolding build_unet_unfold [OF assms(1)] swapped_unet_def
  by (intro block_forward_cong)
     (simp add: swapped_chain_same_shape [OF assms(2)] del: forward.simps)


lemma same_shape_step:
  assumes "(\<forall>t. forward shape_ops sub t = forward shape_ops sub' t) \<and>
           list_all2 (\<lambda>u v. \<forall>t. forward shape_ops u t = forward shape_ops v t) (blocks sub) (blocks sub')"
    and "0 < ic"
  shows "(\<forall>t. forward shape_ops (swapped_block oc ic sub nl ud) t =
              forward shape_ops (UnetSkipConnectionBlock_init oc ic None sub' False False nl ud) t) \<and>
         list_all2 (\<lambda>u v. \<forall>t. forward shape_ops u t = forward shape_ops v t)
           (blocks (swapped_block oc ic sub nl ud))
           (blocks (UnetSkipConnectionBlock_init oc ic None sub' False False nl ud))"
proof -
  have h: "forward shape_ops (swapped_block oc ic sub nl ud) t =
           forward shape_ops (UnetSkipConnectionBlock_init oc ic None sub' False False nl ud) t" for t
    by (rule swapped_block_same_shape) (use assms in blast)+
  show ?thesis
    unfolding blocks_swapped blocks_middle list_all2_Cons
    using h assms(1) by blast
qed

lemma same_shape_refl:
  "(\<forall>t. forward shape_ops X t = forward shape_ops X t) \<and>
   list_all2 (\<lambda>u v. \<forall>t. forward shape_ops u t = forward shape_ops v t) (blocks X) (blocks X)"
  by (simp add: list_all2_refl)

lemma swapped_unet_blocks_same_shape:
  assumes "8 \<le> num_downs" "0 < ngf"
  shows "list_all2 (\<lambda>u v. \<forall>t. forward shape_ops u t = forward shape_ops v t)
           (blocks (swapped_unet input_nc output_nc (nat (num_downs - 8)) ngf nl ud))
           (blocks (build_unet input_nc output_nc num_downs ngf nl ud))"
proof -
  have p: "0 < ngf * 8" "0 < ngf * 4" "0 < ngf * 2" using assms by simp_all
  have t: "forward shape_ops (swapped_unet input_nc output_nc (nat (num_downs - 8)) ngf nl ud) s =
         forward shape_ops (build_unet input_nc output_nc num_downs ngf nl ud) s" for s
    by (rule swapped_unet_same_shape [OF assms])
  have c: "list_all2 (\<lambda>u v. \<forall>t. forward shape_ops u t = forward shape_ops v t)
      (blocks (swapped_block ngf (ngf * 2)
            (swapped_block (ngf * 2) (ngf * 4)
              (swapped_block (ngf * 4) (ngf * 8)
                (swapped_block (ngf * 8) (ngf * 8)
                  (swapped_block (ngf * 8) (ngf * 8)
                    (swapped_block (ngf * 8) (ngf * 8)
                      (add_intermediate (nat (num_downs - 8)) ngf nl ud
                         (UnetSkipConnectionBlock_init (ngf * 8) (ngf * 8) None NoneModule False True
                            nl False)) nl ud) nl ud) nl ud)
                nl False) nl False) nl False))
      (blocks (UnetSkipConnectionBlock_init ngf (ngf * 2) None
            (UnetSkipConnectionBlock_init (ngf * 2) (ngf * 4) None
              (UnetSkipConnectionBlock_init (ngf * 4) (ngf * 8) None
                (UnetSkipConnectionBlock_init (ngf * 8) (ngf * 8) None
                  (UnetSkipConnectionBlock_init (ngf * 8) (ngf * 8) None
                    (UnetSkipConnectionBlock_init (ngf * 8) (ngf * 8) None
                      (add_intermediate (nat (num_downs - 8)) ngf nl ud
                         (UnetSkipConnectionBlock_init (ngf * 8) (ngf * 8) None NoneModule False True
                            nl False)) False False nl ud)
                    False False nl ud) False False nl ud)
                False False nl False) False False nl False) False False nl False))"
    by (rule conjunct2 [OF same_shape_step]) (intro same_shape_step same_shape_refl p)+
  show ?thesis
    using t c
    unfolding build_unet_unfold [OF assms(1)] swapped_unet_def blocks_outer_list list_all2_Cons
    by blast
qed

text \<open>
  Claim C2, as amended (height and width positive). For a generator the constructor
  has built, with a positive number of filters, and an input of shape
  \<open>(n, input_nc, h, w)\<close> whose height and width are positive multiples of
  \<open>2 ^ num_downs\<close>, the forward pass returns the shape \<open>(n, output_nc, h, w)\<close>; with the
  defaults, \<open>(n, 3, h, w)\<close> gives \<open>(n, 1, h, w)\<close>.
\<close>

theorem forward_output_shape:
  assumes "build_and_swap input_nc output_nc num_downs ngf nl ud = Inr g"
    and "0 < ngf" "0 < h" "0 < w" "2 ^ nat num_downs dvd h" "2 ^ nat num_downs dvd w"
  shows "UnetGenerator_forward shape_ops g (n, input_nc, h, w) = Inr (n, output_nc, h, w)"
proof -
  have d: "8 \<le> num_downs"
  proof (rule ccontr)
    assume "\<not> 8 \<le> num_downs"
    then have "build_and_swap input_nc output_nc num_downs ngf nl ud = Inl IndexError"
      by (intro construction_raises_below_eight) simp
    with assms(1) show False by simp
  qed
  then have g: "g = swapped_unet input_nc output_nc (nat (num_downs - 8)) ngf nl ud"
    using assms(1) build_and_swap_ok [OF d, of input_nc output_nc ngf nl ud] by simp
  have "forward shape_ops g (n, input_nc, h, w) =
          forward shape_ops (build_unet input_nc output_nc num_downs ngf nl ud) (n, input_nc, h, w)"
    unfolding g by (rule swapped_unet_same_shape [OF d assms(2)])
  also have "\<dots> = Inr ((n, input_nc, h, w), (n, output_nc, h, w), False)"
    by (rule build_unet_shape) (use d assms in simp_all)
  finally show ?thesis
    by (simp add: UnetGenerator_forward_def)
qed

theorem forward_output_shape_witness:
  "build_and_swap 3 1 8 64 (NormClass InstanceNorm2d) False =
     Inr (swapped_unet 3 1 0 64 (NormClass InstanceNorm2d) False)
   \<and> (0::nat) < 64 \<and> (0::nat) < 512 \<and> (0::nat) < 256
   \<and> 2 ^ nat 8 dvd (512::nat) \<and> 2 ^ nat 8 dvd (256::nat)
   \<and> UnetGenerator_forward shape_ops (swapped_unet 3 1 0 64 (NormClass InstanceNorm2d) False)
        (5, 3, 512, 256) = Inr (5, 1, 512, 256)"
proof -
  have b: "build_and_swap 3 1 8 64 (NormClass InstanceNorm2d) False =
     Inr (swapped_unet 3 1 0 64 (NormClass InstanceNorm2d) False)"
    using build_and_swap_ok [of 8 3 1 64 "NormClass InstanceNorm2d" False] by simp
  have p: "(0::nat) < 64" "(0::nat) < 512" "(0::nat) < 256" by simp_all
  have v: "2 ^ nat 8 dvd (512::nat)" "2 ^ nat 8 dvd (256::nat)"
    by simp_all
  have "UnetGenerator_forward shape_ops (swapped_unet 3 1 0 64 (NormClass InstanceNorm2d) False)
        (5, 3, 512, 256) = Inr (5, 1, 512, 256)"
    by (rule forward_output_shape [OF b p v])
  with b p v show ?thesis by (intro conjI)
qed

text \<open>
  Claim C2 as stated fails on an image of height and width 0, which 2 ^ 8 divides:
  the first convolution rejects it (its kernel is larger than the padded input).
\<close>

theorem forward_empty_image_raises:
  "build_and_swap 3 1 8 64 (NormClass InstanceNorm2d) False =
     Inr (swapped_unet 3 1 0 64 (NormClass InstanceNorm2d) False)
   \<and> 2 ^ nat 8 dvd (0::nat)
   \<and> UnetGenerator_forward shape_ops (swapped_unet 3 1 0 64 (NormClass InstanceNorm2d) False)
        (1, 3, 0, 0) = Inl RuntimeError"
proof -
  have b: "build_and_swap 3 1 8 64 (NormClass InstanceNorm2d) False =
     Inr (swapped_unet 3 1 0 64 (NormClass InstanceNorm2d) False)"
    using build_and_swap_ok [of 8 3 1 64 "NormClass InstanceNorm2d" False] by simp
  have f: "UnetGenerator_forward shape_ops (swapped_unet 3 1 0 64 (NormClass InstanceNorm2d) False)
        (1, 3, 0, 0) = Inl RuntimeError"
    by (simp add: UnetGenerator_forward_def swapped_unet_def layer_forward_shape)
  from b f show ?thesis by simp
qed

section \<open>The replacement keeps the shapes\<close>

lemma decoders_same_shape:
  assumes "8 \<le> num_downs" "0 < ngf"
  shows "list_all2 (rel_option (\<lambda>u v. \<forall>t. forward shape_ops u t = forward shape_ops v t))
           (map (\<lambda>st. snd (snd st)) (stages (swapped_unet input_nc output_nc (nat (num_downs - 8)) ngf nl ud)))
           (map (\<lambda>st. snd (snd st)) (stages (build_unet input_nc output_nc num_downs ngf nl ud)))"
proof -
  have n: "nat (num_downs - 5) = Suc (Suc (Suc (nat (num_downs - 8))))"
    using assms(1) by simp
  have five: "5 \<le> num_downs" using assms(1) by simp
  have p: "0 < ngf * 8 * 2" "0 < ngf * 4 * 2" "0 < ngf * 2 * 2" using assms(2) by simp_all
  have u: "\<forall>t. forward shape_ops (Upsample_init ci co 2) t =
               forward shape_ops (Layer (ConvTranspose2d ci co 4 2 1 b)) t" if "0 < ci" for ci co b
    using Upsample_same_shape_as_deconv [OF that] by blast
  have r: "list_all2 (rel_option (\<lambda>u v. \<forall>t. forward shape_ops u t = forward shape_ops v t)) xs xs" for xs
    by (rule list_all2_refl) (simp add: option.rel_refl)
  show ?thesis
    unfolding stages_swapped_unet stages_build_unet n
    by (simp only: list.map map_append map_replicate replicate.simps append.simps snd_conv
        list_all2_Cons option.rel_inject r simp_thms
        u [of "ngf * 8 * 2" _ "use_bias_of nl", OF p(1)]
        u [of "ngf * 4 * 2" _ "use_bias_of nl", OF p(2)]
        u [of "ngf * 2 * 2" _ "use_bias_of nl", OF p(3)])
qed

lemma decoder_channels_same:
  assumes "8 \<le> num_downs"
  shows "map (\<lambda>st. Option.bind (snd (snd st)) decoder_channels)
           (stages (swapped_unet input_nc output_nc (nat (num_downs - 8)) ngf nl ud)) =
         map (\<lambda>st. Option.bind (snd (snd st)) decoder_channels)
           (stages (build_unet input_nc output_nc num_downs ngf nl ud))"
proof -
  have n: "nat (num_downs - 5) = Suc (Suc (Suc (nat (num_downs - 8))))"
    using assms(1) by simp
  have five: "5 \<le> num_downs" using assms(1) by simp
  show ?thesis
    unfolding stages_swapped_unet stages_build_unet n
    by (simp only: list.map map_append map_replicate replicate.simps append.simps snd_conv
        Upsample_init_def decoder_channels.simps Option.bind.simps)
qed

text \<open>
  Claim C10. Where the loop succeeds (depth at least 8; the number of filters is
  positive), every up-sampling module of the new graph has the channels (in, out) of
  the one it stands for, an Upsample returns the same shape as the transposed
  convolution it replaced on every input shape (and fails on the same shapes), and so
  does every block, stage by stage, outermost first.
\<close>

theorem swap_preserves_shape_interface:
  assumes "8 \<le> num_downs" "0 < ngf"
  shows "\<exists>g. build_and_swap input_nc output_nc num_downs ngf nl ud = Inr g \<and>
     map (\<lambda>st. Option.bind (snd (snd st)) decoder_channels) (stages g) =
       map (\<lambda>st. Option.bind (snd (snd st)) decoder_channels)
         (stages (build_unet input_nc output_nc num_downs ngf nl ud)) \<and>
     list_all2 (rel_option (\<lambda>u v. \<forall>t. forward shape_ops u t = forward shape_ops v t))
       (map (\<lambda>st. snd (snd st)) (stages g))
       (map (\<lambda>st. snd (snd st)) (stages (build_unet input_nc output_nc num_downs ngf nl ud))) \<and>
     list_all2 (\<lambda>u v. \<forall>t. forward shape_ops u t = forward shape_ops v t)
       (blocks g) (blocks (build_unet input_nc output_nc num_downs ngf nl ud))"
  using build_and_swap_ok [OF assms(1)] decoder_channels_same [OF assms(1)]
    decoders_same_shape [OF assms] swapped_unet_blocks_same_shape [OF assms]
  by blast


theorem swap_preserves_shape_interface_witness:
  "(8::int) \<le> 8 \<and> (0::nat) < 64 \<and>
   (\<exists>g. build_and_swap 3 1 8 64 (NormClass InstanceNorm2d) False = Inr g \<and>
     map (\<lambda>st. Option.bind (snd (snd st)) decoder_channels) (stages g) =
       map (\<lambda>st. Option.bind (snd (snd st)) decoder_channels)
         (stages (build_unet 3 1 8 64 (NormClass InstanceNorm2d) False)) \<and>
     map (\<lambda>st. Option.bind (snd (snd st)) decoder_channels)
         (stages (build_unet 3 1 8 64 (NormClass InstanceNorm2d) False)) =
       [Some (128, 1), Some (256, 64), Some (512, 128), Some (1024, 256), Some (1024, 512),
        Some (1024, 512), Some (1024, 512), Some (512, 512)] \<and>
     list_all2 (rel_option (\<lambda>u v. \<forall>t. forward shape_ops u t = forward shape_ops v t))
       (map (\<lambda>st. snd (snd st)) (stages g))
       (map (\<lambda>st. snd (snd st)) (stages (build_unet 3 1 8 64 (NormClass InstanceNorm2d) False))) \<and>
     list_all2 (\<lambda>u v. \<forall>t. forward shape_ops u t = forward shape_ops v t)
       (blocks g) (blocks (build_unet 3 1 8 64 (NormClass InstanceNorm2d) False)))"
proof -
  have a: "(8::int) \<le> 8" "(0::nat) < 64" by simp_all
  have e: "map (\<lambda>st. Option.bind (snd (snd st)) decoder_channels)
         (stages (build_unet 3 1 8 64 (NormClass InstanceNorm2d) False)) =
       [Some (128, 1), Some (256, 64), Some (512, 128), Some (1024, 256), Some (1024, 512),
        Some (1024, 512), Some (1024, 512), Some (512, 512)]"
    unfolding stages_build_unet by (simp add: numeral_3_eq_3)
  obtain g where g: "build_and_swap 3 1 8 64 (NormClass InstanceNorm2d) False = Inr g"
     "map (\<lambda>st. Option.bind (snd (snd st)) decoder_channels) (stages g) =
       map (\<lambda>st. Option.bind (snd (snd st)) decoder_channels)
         (stages (build_unet 3 1 8 64 (NormClass InstanceNorm2d) False))"
     "list_all2 (rel_option (\<lambda>u v. \<forall>t. forward shape_ops u t = forward shape_ops v t))
       (map (\<lambda>st. snd (snd st)) (stages g))
       (map (\<lambda>st. snd (snd st)) (stages (build_unet 3 1 8 64 (NormClass InstanceNorm2d) False)))"
     "list_all2 (\<lambda>u v. \<forall>t. forward shape_ops u t = forward shape_ops v t)
       (blocks g) (blocks (build_unet 3 1 8 64 (NormClass InstanceNorm2d) False))"
    using swap_preserves_shape_interface [OF a, of 3 1 "NormClass InstanceNorm2d" False]
    by (elim exE conjE)
  show ?thesis
    by (intro conjI exI [of _ g] a e g)
qed

section \<open>Smooth on real-valued tensors\<close>

lemma tensor_ops_simps [simp]:
  "tensor_size (tensor_ops num) = shape"
  "call (tensor_ops num) l t =
     and_then (layer_shape l (shape t)) (\<lambda>s. Inr \<lparr>shape = s, data = layer_data num l t\<rparr>)"
  "F_conv2d (tensor_ops num) t weight =
     and_then (conv2d_shape (shape t) weight)
       (\<lambda>s. case s of (n, co, oh, ow) \<Rightarrow> Inr \<lparr>shape = s, data = conv2d_data t weight oh ow\<rparr>)"
  "tensor_view (tensor_ops num) t dims =
     and_then (view_shape (shape t) dims) (\<lambda>s. Inr \<lparr>shape = s, data = unflatten4 s (flatten4 (data t))\<rparr>)"
  "torch_cat (tensor_ops num) a b =
     and_then (cat_shape (shape a) (shape b)) (\<lambda>s. Inr \<lparr>shape = s, data = map2 (@) (data a) (data b)\<rparr>)"
  "tensor_add (tensor_ops num) a b =
     and_then (add_shape (shape a) (shape b)) (\<lambda>s. Inr \<lparr>shape = s, data = add_data (data a) (data b)\<rparr>)"
  "pointwise (tensor_ops num) f t = t\<lparr>data := map4 f (data t)\<rparr>"
  by (simp_all add: tensor_ops_def)

text \<open>Regrouping a flattened list.\<close>

lemma chunk_concat:
  assumes "list_all (\<lambda>r. length r = k) rs"
  shows "chunk (length rs) k (concat rs) = rs"
  using assms by (induction rs) simp_all

lemma chunk_concat':
  assumes "list_all (\<lambda>r. length r = k) rs" "n = length rs"
  shows "chunk n k (concat rs) = rs"
  using chunk_concat [OF assms(1)] assms(2) by simp

lemma length_concat_uniform:
  assumes "list_all (\<lambda>r. length r = k) rs"
  shows "length (concat rs) = length rs * k"
  using assms by (induction rs) simp_all

lemma unflatten_plane:
  assumes "length pl = h" "list_all (\<lambda>r. length r = w) pl"
  shows "chunk h w (concat pl) = pl" "length (concat pl) = h * w"
  using chunk_concat' [OF assms(2)] length_concat_uniform [OF assms(2)] assms(1) by simp_all

lemma unflatten_image:
  assumes "length img = c" "list_all (\<lambda>pl. length pl = h \<and> list_all (\<lambda>r. length r = w) pl) img"
  shows "map (chunk h w) (chunk c (h * w) (concat (map concat img))) = img"
    and "length (concat (map concat img)) = c * (h * w)"
proof -
  have l: "list_all (\<lambda>r. length r = h * w) (map concat img)"
    using assms(2) by (induction img) (simp_all add: unflatten_plane)
  have "chunk c (h * w) (concat (map concat img)) = map concat img"
    using chunk_concat' [OF l] assms(1) by simp
  moreover have "map (chunk h w) (map concat img) = img"
    using assms(2) by (induction img) (simp_all add: unflatten_plane)
  ultimately show "map (chunk h w) (chunk c (h * w) (concat (map concat img))) = img" by simp
  show "length (concat (map concat img)) = c * (h * w)"
    using length_concat_uniform [OF l] assms(1) by simp
qed

lemma concat_concat_map: "concat (concat xss) = concat (map concat xss)"
  by (induction xss) simp_all

lemma flatten4_alt: "flatten4 d = concat (map (\<lambda>img. concat (map concat img)) d)"
  by (induction d) (simp_all add: flatten4_def concat_concat_map)

lemma unflatten_flatten:
  assumes "rect (n, c, h, w) d"
  shows "unflatten4 (n, c, h, w) (flatten4 d) = d"
proof -
  have a: "length d = n"
    and b: "list_all (\<lambda>img. length img = c \<and>
               list_all (\<lambda>pl. length pl = h \<and> list_all (\<lambda>r. length r = w) pl) img) d"
    using assms by (simp_all add: rect_def)
  have l: "list_all (\<lambda>r. length r = c * h * w) (map (\<lambda>img. concat (map concat img)) d)"
    using b by (induction d) (simp_all add: unflatten_image mult.assoc)
  have "chunk n (c * h * w) (flatten4 d) = map (\<lambda>img. concat (map concat img)) d"
    unfolding flatten4_alt using chunk_concat' [OF l] a by simp
  moreover have "map (\<lambda>img. map (chunk h w) (chunk c (h * w) img)) (map (\<lambda>img. concat (map concat img)) d) = d"
    using b by (induction d) (simp_all add: unflatten_image)
  ultimately show ?thesis by (simp add: unflatten4_def)
qed

lemma nth_border:
  assumes "xs \<noteq> []" "k < length xs + 2"
  shows "(replicate 1 (hd xs) @ xs @ replicate 1 (last xs)) ! k = xs ! min (length xs - 1) (k - 1)"
proof -
  consider "k = 0" | "0 < k" "k \<le> length xs" | "k = Suc (length xs)"
    using assms(2) by linarith
  then show ?thesis
  proof cases
    case 1
    then show ?thesis using assms(1) by (simp add: hd_conv_nth)
  next
    case 2
    then have "min (length xs - 1) (k - 1) = k - 1" by simp
    moreover have "(hd xs # xs @ [last xs]) ! k = xs ! (k - 1)"
      using 2 by (cases k) (simp_all add: nth_append)
    ultimately show ?thesis by simp
  next
    case 3
    then have "min (length xs - 1) (k - 1) = length xs - 1" by simp
    moreover have "(hd xs # xs @ [last xs]) ! k = last xs"
      using 3 by (simp add: nth_append)
    ultimately show ?thesis using assms(1) by (simp add: last_conv_nth)
  qed
qed

lemma pad_row_nth:
  assumes "r \<noteq> []" "k < length r + 2"
  shows "pad_row 1 r ! k = r ! min (length r - 1) (k - 1)"
  unfolding pad_row_def by (rule nth_border [OF assms])

lemma pad_plane_nth:
  assumes "pl \<noteq> []" "k < length pl + 2"
  shows "pad_plane 1 pl ! k = pad_row 1 (pl ! min (length pl - 1) (k - 1))"
proof -
  have n: "map (pad_row 1) pl \<noteq> []" using assms(1) by simp
  have k: "k < length (map (pad_row 1) pl) + 2" using assms(2) by simp
  have "0 < length pl" using assms(1) by simp
  then have m: "min (length pl - 1) (k - 1) < length pl" by arith
  show ?thesis
    unfolding pad_plane_def Let_def nth_border [OF n k]
    using m by simp
qed

lemma pad_plane_entry:
  assumes "length pl = h" "list_all (\<lambda>r. length r = w) pl" "0 < h" "0 < w"
    and "a < h + 2" "b < w + 2"
  shows "pad_plane 1 pl ! a ! b = replicated pl a b"
proof -
  have ne: "pl \<noteq> []" using assms(1,3) by auto
  have m: "min (h - 1) (a - 1) < h" using assms(3) by arith
  have rows: "length (pl ! i) = w" if "i < h" for i
    using assms(1,2) that by (simp add: list_all_length)
  have hd: "length (hd pl) = w" using rows [of 0] ne assms(3) by (simp add: hd_conv_nth)
  have r: "pl ! min (h - 1) (a - 1) \<noteq> []" using rows [OF m] assms(4) by auto
  have "pad_plane 1 pl ! a ! b = pad_row 1 (pl ! min (h - 1) (a - 1)) ! b"
    using pad_plane_nth [OF ne, of a] assms(1,5) by simp
  also have "\<dots> = pl ! min (h - 1) (a - 1) ! min (w - 1) (b - 1)"
    using pad_row_nth [OF r, of b] rows [OF m] assms(6) by simp
  finally show ?thesis by (simp add: replicated_def Let_def assms(1) hd)
qed

lemma upt_3: "[0..<3] = [0, 1, 2]"
  by (simp add: upt_rec)

lemma sum_list_cong:
  assumes "\<And>x. x \<in> set xs \<Longrightarrow> f x = g x"
  shows "sum_list (map f xs) = sum_list (map g xs)"
  using assms by (intro arg_cong [where f = sum_list] map_cong refl)

lemma corr_pad:
  assumes "length pl = h" "list_all (\<lambda>r. length r = w) pl" "0 < h" "0 < w" "i < h" "j < w"
  shows "corr_at [pad_plane 1 pl] [blur_kernel] i j =
           (\<Sum>di\<leftarrow>[0..<3]. \<Sum>dj\<leftarrow>[0..<3]. blur_kernel ! di ! dj * replicated pl (i + di) (j + dj))"
proof -
  have e: "pad_plane 1 pl ! (i + di) ! (j + dj) = replicated pl (i + di) (j + dj)"
    if "di < 3" "dj < 3" for di dj
    by (rule pad_plane_entry [OF assms(1-4)]) (use that assms(5,6) in simp_all)
  have l: "length blur_kernel = 3" by (simp add: blur_kernel_def)
  have len: "length (blur_kernel ! di) = 3" if "di < 3" for di
    using that by (auto simp: blur_kernel_def less_Suc_eq numeral_3_eq_3)
  have "corr_at [pad_plane 1 pl] [blur_kernel] i j =
          (\<Sum>di\<leftarrow>[0..<3]. \<Sum>dj\<leftarrow>[0..<length (blur_kernel ! di)].
             blur_kernel ! di ! dj * pad_plane 1 pl ! (i + di) ! (j + dj))"
    by (simp add: corr_at_def l)
  also have "\<dots> = (\<Sum>di\<leftarrow>[0..<3]. \<Sum>dj\<leftarrow>[0..<3].
             blur_kernel ! di ! dj * replicated pl (i + di) (j + dj))"
  proof (rule sum_list_cong)
    fix di :: nat
    assume "di \<in> set [0..<3]"
    then have d: "di < 3" by simp
    show "(\<Sum>dj\<leftarrow>[0..<length (blur_kernel ! di)].
             blur_kernel ! di ! dj * pad_plane 1 pl ! (i + di) ! (j + dj)) =
          (\<Sum>dj\<leftarrow>[0..<3]. blur_kernel ! di ! dj * replicated pl (i + di) (j + dj))"
      unfolding len [OF d]
    proof (rule sum_list_cong)
      fix dj :: nat
      assume "dj \<in> set [0..<3]"
      then have "dj < 3" by simp
      from e [OF d this]
      show "blur_kernel ! di ! dj * pad_plane 1 pl ! (i + di) ! (j + dj) =
            blur_kernel ! di ! dj * replicated pl (i + di) (j + dj)"
        by simp
    qed
  qed
  finally show ?thesis .
qed

lemma conv_plane_is_blur:
  assumes "length pl = h" "list_all (\<lambda>r. length r = w) pl" "0 < h" "0 < w"
  shows "map (\<lambda>i. map (\<lambda>j. corr_at [pad_plane 1 pl] [blur_kernel] i j) [0..<w]) [0..<h] = blur_plane pl"
proof -
  have ne: "pl \<noteq> []" using assms(1,3) by auto
  have hd: "length (hd pl) = w"
    using assms(2) ne by (cases pl) simp_all
  show ?thesis
    unfolding blur_plane_def assms(1) hd
    by (intro map_cong refl corr_pad [OF assms]) simp_all
qed

lemma blur_plane_rect:
  assumes "length pl = h" "list_all (\<lambda>r. length r = w) pl" "0 < h"
  shows "length (blur_plane pl) = h \<and> list_all (\<lambda>r. length r = w) (blur_plane pl)"
proof -
  have ne: "pl \<noteq> []" using assms(1,3) by auto
  have hd: "length (hd pl) = w"
    using assms(2) ne by (cases pl) simp_all
  show ?thesis
    by (simp add: blur_plane_def assms(1) hd list_all_iff)
qed

lemma Smooth_init_kernel: "kernel Smooth_init = \<lparr>shape = (1, 1, 3, 3), data = [[blur_kernel]]\<rparr>"
  "pad Smooth_init = ReplicationPad2d 1"
  by (simp_all add: Smooth_init_def blur_kernel_def)

lemma wf_tensor_rect: "wf_tensor t = rect (shape t) (data t)"
  by (simp add: wf_tensor_def)

lemma list_all_concat: "list_all P (concat xss) = list_all (list_all P) xss"
  by (induction xss) simp_all

lemma rect_planes:
  assumes "rect (n, c, h, w) d"
  shows "length (concat d) = n * c"
    and "list_all (\<lambda>pl. length pl = h \<and> list_all (\<lambda>r. length r = w) pl) (concat d)"
proof -
  have a: "length d = n"
    and b: "list_all (\<lambda>img. length img = c \<and>
               list_all (\<lambda>pl. length pl = h \<and> list_all (\<lambda>r. length r = w) pl) img) d"
    using assms by (simp_all add: rect_def)
  have "list_all (\<lambda>img. length img = c) d"
    using b by (induction d) simp_all
  from length_concat_uniform [OF this] a show "length (concat d) = n * c" by simp
  show "list_all (\<lambda>pl. length pl = h \<and> list_all (\<lambda>r. length r = w) pl) (concat d)"
    unfolding list_all_concat using b by (induction d) simp_all
qed

lemma view_as_planes:
  assumes "rect (n, c, h, w) d"
  shows "unflatten4 (n * c, 1, h, w) (flatten4 d) = map (\<lambda>pl. [pl]) (concat d)"
proof -
  have r: "rect (n * c, 1, h, w) (map (\<lambda>pl. [pl]) (concat d))"
    using rect_planes [OF assms] by (simp add: rect_def list_all_iff)
  have "flatten4 (map (\<lambda>pl. [pl]) (concat d)) = flatten4 d"
    by (simp add: flatten4_def concat_map_singleton)
  with unflatten_flatten [OF r] show ?thesis by simp
qed

lemma view_back_from_planes:
  assumes "rect (n, c, h, w) d"
    and "\<And>pl. length pl = h \<Longrightarrow> list_all (\<lambda>r. length r = w) pl \<Longrightarrow>
            length (g pl) = h \<and> list_all (\<lambda>r. length r = w) (g pl)"
  shows "unflatten4 (n, c, h, w) (flatten4 (map (\<lambda>pl. [g pl]) (concat d))) = map (map g) d"
proof -
  have r: "rect (n, c, h, w) (map (map g) d)"
    using assms by (auto simp add: rect_def list_all_iff)
  have e: "concat (map (\<lambda>pl. [g pl]) (concat d)) = map g (concat d)"
    by (rule concat_map_singleton)
  have "flatten4 (map (\<lambda>pl. [g pl]) (concat d)) = concat (concat (map g (concat d)))"
    by (simp only: flatten4_def e)
  also have "\<dots> = flatten4 (map (map g) d)"
    by (simp only: flatten4_def map_concat)
  finally have "flatten4 (map (\<lambda>pl. [g pl]) (concat d)) = flatten4 (map (map g) d)" .
  with unflatten_flatten [OF r] show ?thesis by simp
qed

lemma conv_planes_are_blurred:
  assumes "list_all (\<lambda>pl. length pl = h \<and> list_all (\<lambda>r. length r = w) pl) pls" "0 < h" "0 < w"
  shows "map (\<lambda>img. map (\<lambda>filt. map (\<lambda>i. map (\<lambda>j. corr_at img filt i j) [0..<w]) [0..<h]) [[blur_kernel]])
           (map (\<lambda>pl. [pad_plane 1 pl]) pls) = map (\<lambda>pl. [blur_plane pl]) pls"
  using assms(1)
proof (induction pls)
  case Nil
  show ?case by simp
next
  case (Cons pl pls)
  then have a: "length pl = h" "list_all (\<lambda>r. length r = w) pl" by simp_all
  from Cons show ?case
    by (simp add: conv_plane_is_blur [OF a assms(2,3)] del: One_nat_def)
qed

lemma blur_kernel_sum: "sum_list (concat blur_kernel) = 1"
  by (simp add: blur_kernel_def)

lemma Smooth_forward_value:
  assumes "wf_tensor x" "shape x = (b, c, h, w)" "0 < h" "0 < w"
  shows "Smooth_forward (tensor_ops num) Smooth_init x =
           Inr \<lparr>shape = (b, c, h, w), data = map (map blur_plane) (data x)\<rparr>"
proof -
  have r: "rect (b, c, h, w) (data x)"
    using assms(1,2) by (simp add: wf_tensor_rect)
  have v1: "view_shape (b, c, h, w) (- 1, 1, int h, int w) = Inr (b * c, 1, h, w)"
    by (rule view_flatten_shape [OF assms(3,4)])
  have p: "layer_shape (ReplicationPad2d 1) (b * c, 1, h, w) = Inr (b * c, 1, h + 2, w + 2)"
    using assms(3,4) by simp
  have k: "conv2d_shape (b * c, 1, h + 2, w + 2) \<lparr>shape = (1, 1, 3, 3), data = [[blur_kernel]]\<rparr> =
             Inr (b * c, 1, h, w)"
    using assms(3,4) by (simp add: conv2d_shape_def)
  have v2: "view_shape (b * c, 1, h, w) (int b, int c, int h, int w) = Inr (b, c, h, w)"
    using view_back_shape [of b c h w] by simp
  have d2: "map (map (pad_plane 1)) (map (\<lambda>pl. [pl]) (concat (data x))) =
            map (\<lambda>pl. [pad_plane 1 pl]) (concat (data x))"
    by simp
  note d3 = conv_planes_are_blurred [OF rect_planes(2) [OF r] assms(3,4)]
  have d4: "unflatten4 (b, c, h, w) (flatten4 (map (\<lambda>pl. [blur_plane pl]) (concat (data x)))) =
            map (map blur_plane) (data x)"
    by (rule view_back_from_planes [OF r]) (use blur_plane_rect assms(3) in blast)
  show ?thesis
    unfolding Smooth_forward_def Smooth_init_kernel tensor_ops_simps assms(2) prod.case
    by (simp only: v1 and_then_simps tensor.simps view_as_planes [OF r] layer_data.simps p d2 k
        conv2d_data_def prod.case d3 v2 d4)
qed

text \<open>
  Claim C9, as amended (height and width at least 1). On a tensor of shape
  \<open>(b, c, h, w)\<close>, \<open>Smooth.forward\<close> returns a tensor of the same shape in which every
  channel of every image is that channel convolved, on its own, with the one 3 x 3
  kernel (1 2 1; 2 4 2; 1 2 1) / 16, whose entries sum to 1, on the plane extended by
  replication padding of 1.
\<close>

theorem Smooth_forward_blurs:
  assumes "wf_tensor x" "shape x = (b, c, h, w)" "0 < h" "0 < w"
  shows "Smooth_forward (tensor_ops num) Smooth_init x =
           Inr \<lparr>shape = (b, c, h, w), data = map (map blur_plane) (data x)\<rparr>
       \<and> kernel Smooth_init = \<lparr>shape = (1, 1, 3, 3), data = [[blur_kernel]]\<rparr>
       \<and> pad Smooth_init = ReplicationPad2d 1
       \<and> sum_list (concat blur_kernel) = 1"
  using Smooth_forward_value [OF assms] Smooth_init_kernel blur_kernel_sum by simp

lemma blur_plane_example:
  "map (map blur_plane) [[[[1, 2, 3], [4, 5, 6]], [[- 1, 0, 1], [16, 0, - 16]]]] =
     [[[[2, 11 / 4, 7 / 2], [7 / 2, 17 / 4, 5]],
       [[39 / 16, 0, - (39 / 16)], [141 / 16, 0, - (141 / 16)]]]]"
  by (simp add: blur_plane_def replicated_def blur_kernel_def upt_3 Let_def upt_rec)

theorem Smooth_forward_blurs_witness:
  "wf_tensor \<lparr>shape = (1, 2, 2, 3), data = [[[[1, 2, 3], [4, 5, 6]], [[- 1, 0, 1], [16, 0, - 16]]]]\<rparr>
   \<and> (0::nat) < 2 \<and> (0::nat) < 3
   \<and> Smooth_forward (tensor_ops zero_parameters) Smooth_init
         \<lparr>shape = (1, 2, 2, 3), data = [[[[1, 2, 3], [4, 5, 6]], [[- 1, 0, 1], [16, 0, - 16]]]]\<rparr> =
       Inr \<lparr>shape = (1, 2, 2, 3),
            data = [[[[2, 11 / 4, 7 / 2], [7 / 2, 17 / 4, 5]],
                     [[39 / 16, 0, - (39 / 16)], [141 / 16, 0, - (141 / 16)]]]]\<rparr>
   \<and> sum_list (concat blur_kernel) = 1"
proof -
  let ?x = "\<lparr>shape = (1, 2, 2, 3), data = [[[[1, 2, 3], [4, 5, 6]], [[- 1, 0, 1], [16, 0, - 16 :: real]]]]\<rparr>"
  have w: "wf_tensor ?x" by (simp add: wf_tensor_def rect_def)
  have s: "shape ?x = (1, 2, 2, 3)" by simp
  have p: "(0::nat) < 2" "(0::nat) < 3" by simp_all
  from Smooth_forward_blurs [OF w s p, of zero_parameters] w p
  show ?thesis by (simp only: blur_plane_example tensor.simps simp_thms)
qed

text \<open>
  Claim C9 as stated fails on a four-dimensional tensor with no rows:
  \<open>x.view(-1, 1, 0, 0)\<close> cannot infer the dimension given as -1 and raises.
\<close>

theorem Smooth_forward_empty_plane_raises:
  "wf_tensor \<lparr>shape = (1, 1, 0, 0), data = [[[]]]\<rparr>
   \<and> Smooth_forward (tensor_ops zero_parameters) Smooth_init \<lparr>shape = (1, 1, 0, 0), data = [[[]]]\<rparr> =
       Inl RuntimeError"
  by (simp add: wf_tensor_def rect_def Smooth_forward_def view_shape_def Let_def)

section \<open>Upsample and the skip connection on real-valued tensors\<close>

lemma map2_commute:
  assumes "\<And>a b. f a b = f b a"
  shows "map2 f xs ys = map2 f ys xs"
proof (induction xs arbitrary: ys)
  case Nil
  show ?case by simp
next
  case (Cons x xs)
  then show ?case by (cases ys) (simp_all add: assms)
qed

lemma bzip_commute:
  assumes "\<And>a b. f a b = f b a"
  shows "bzip f xs ys = bzip f ys xs"
proof -
  have "map (f (hd xs)) ys = map (\<lambda>y. f y (hd xs)) ys" by (simp add: assms)
  moreover have "map (\<lambda>x. f x (hd ys)) xs = map (f (hd ys)) xs" by (simp add: assms)
  ultimately show ?thesis
    by (auto simp add: bzip_def map2_commute [OF assms])
qed

lemma add_data_commute: "add_data a b = add_data b a"
  unfolding add_data_def
  by (intro bzip_commute) (simp add: add.commute)

lemma broadcast_dim_commute: "broadcast_dim a b = broadcast_dim b a"
  by (auto simp: broadcast_dim_def)

lemma add_shape_commute: "add_shape s t = add_shape t s"
  by (cases s; cases t) (simp add: add_shape_def broadcast_dim_commute split: option.splits)

lemma tensor_add_commute: "tensor_add (tensor_ops num) a b = tensor_add (tensor_ops num) b a"
  by (simp add: add_shape_commute [of "shape a"] add_data_commute [of "data a"])

lemma Upsample_forward_any:
  "forward ops (Upsample_init inc outc sf) x =
     and_then (call ops (nn_Upsample sf) x) (\<lambda>u.
     and_then (Smooth_forward ops Smooth_init u) (\<lambda>s.
     and_then (call ops (Conv2d inc outc 3 1 1 True) s) (\<lambda>conv_output.
     and_then (call ops (Conv2d outc (4 * outc) 1 1 0 True) conv_output) (\<lambda>e.
     and_then (call ops GELU e) (\<lambda>g.
     and_then (call ops (Conv2d (4 * outc) outc 1 1 0 True) g) (\<lambda>mlp_output.
     and_then (tensor_add ops mlp_output conv_output) (\<lambda>r. Inr (x, r, False))))))))"
  by (simp add: Upsample_init_def layer_forward_def and_then_def split: sum.splits)

lemma and_then_cong_right:
  assumes "\<And>v. f v = g v"
  shows "and_then r f = and_then r g"
  using assms by (simp add: and_then_def split: sum.splits)

text \<open>
  Claim C8. \<open>Upsample.forward\<close> computes, in this order: the bilinear resizing by 2, the
  Smooth blur, the 3 x 3 convolution of stride 1 from \<open>inc\<close> to \<open>outc\<close> channels, giving
  \<open>conv_output\<close>; then the 1 x 1 convolution to \<open>4 * outc\<close> channels, GELU and the 1 x 1
  convolution back to \<open>outc\<close> channels, giving \<open>mlp_output\<close>; and it returns
  \<open>conv_output + mlp_output\<close>, leaving its input as it was. An exception of any step is
  the exception of the whole.
\<close>

theorem Upsample_forward_steps:
  "forward (tensor_ops num) (Upsample_init inc outc 2) x =
     and_then (call (tensor_ops num) (nn_Upsample 2) x) (\<lambda>u.
     and_then (Smooth_forward (tensor_ops num) Smooth_init u) (\<lambda>s.
     and_then (call (tensor_ops num) (Conv2d inc outc 3 1 1 True) s) (\<lambda>conv_output.
     and_then (call (tensor_ops num) (Conv2d outc (4 * outc) 1 1 0 True) conv_output) (\<lambda>e.
     and_then (call (tensor_ops num) GELU e) (\<lambda>g.
     and_then (call (tensor_ops num) (Conv2d (4 * outc) outc 1 1 0 True) g) (\<lambda>mlp_output.
     and_then (tensor_add (tensor_ops num) conv_output mlp_output) (\<lambda>r. Inr (x, r, False))))))))"
proof -
  have c: "and_then (tensor_add (tensor_ops num) m v) k = and_then (tensor_add (tensor_ops num) v m) k"
    for m v :: tensor and k :: "tensor \<Rightarrow> error + tensor \<times> tensor \<times> bool"
    using tensor_add_commute [of num m v] by (rule arg_cong)
  show ?thesis
    unfolding Upsample_forward_any
    by (intro and_then_cong_right c)
qed

lemma blur_zero_plane: "blur_plane [[0, 0], [0, 0]] = [[0, 0], [0, 0]]"
  by (simp add: blur_plane_def replicated_def blur_kernel_def upt_3 Let_def upt_rec)

theorem Upsample_forward_steps_witness:
  "forward (tensor_ops zero_parameters) (Upsample_init 1 1 2) \<lparr>shape = (1, 1, 1, 1), data = [[[[0]]]]\<rparr> =
     Inr (\<lparr>shape = (1, 1, 1, 1), data = [[[[0]]]]\<rparr>,
          \<lparr>shape = (1, 1, 2, 2), data = [[[[0, 0], [0, 0]]]]\<rparr>, False)"
proof -
  let ?u = "\<lparr>shape = (1, 1, 2, 2), data = [[[[0, 0], [0, 0 :: real]]]]\<rparr>"
  have w: "wf_tensor ?u" by (simp add: wf_tensor_def rect_def)
  have s: "Smooth_forward (tensor_ops zero_parameters) Smooth_init ?u = Inr ?u"
    using Smooth_forward_value [OF w, of 1 1 2 2 zero_parameters] by (simp add: blur_zero_plane)
  have u: "call (tensor_ops zero_parameters) (nn_Upsample 2) \<lparr>shape = (1, 1, 1, 1), data = [[[[0]]]]\<rparr> = Inr ?u"
    by (simp add: zero_parameters_def zeros_def numeral_2_eq_2)
  have c: "call (tensor_ops zero_parameters) (Conv2d 1 1 3 1 1 True) ?u = Inr ?u"
    by (simp add: zero_parameters_def zeros_def numeral_2_eq_2)
  have e: "call (tensor_ops zero_parameters) (Conv2d 1 (4 * 1) 1 1 0 True) ?u =
             Inr \<lparr>shape = (1, 4, 2, 2), data = zeros (1, 4, 2, 2)\<rparr>"
    by (simp add: zero_parameters_def numeral_2_eq_2)
  have g: "call (tensor_ops zero_parameters) GELU \<lparr>shape = (1, 4, 2, 2), data = zeros (1, 4, 2, 2)\<rparr> =
             Inr \<lparr>shape = (1, 4, 2, 2), data = zeros (1, 4, 2, 2)\<rparr>"
    by (simp add: zero_parameters_def numeral_2_eq_2)
  have m: "call (tensor_ops zero_parameters) (Conv2d (4 * 1) 1 1 1 0 True)
             \<lparr>shape = (1, 4, 2, 2), data = zeros (1, 4, 2, 2)\<rparr> = Inr ?u"
    by (simp add: zero_parameters_def zeros_def numeral_2_eq_2)
  have a: "tensor_add (tensor_ops zero_parameters) ?u ?u = Inr ?u"
    by (simp add: add_shape_def broadcast_dim_def add_data_def bzip_def)
  show ?thesis
    unfolding Upsample_forward_steps
    by (simp only: u s c e g m a and_then_simps)
qed

text \<open>
  Claim C4 fails on the values. An innermost block of one channel with all learned
  parameters zero, on the 2 x 2 image whose elements are all -1: the first channel of
  the result is not the input but the input after LeakyReLU(0.2), all -1/5, and the
  input tensor itself now holds these values. The first layer of \<open>self.model\<close> is in
  place and has run before \<open>torch.cat\<close> reads \<open>x\<close>.
\<close>

theorem skip_connection_concatenates_activated_input:
  "forward (tensor_ops zero_parameters)
     (UnetSkipConnectionBlock_init 1 1 None NoneModule False True (NormClass InstanceNorm2d) False)
     \<lparr>shape = (1, 1, 2, 2), data = [[[[- 1, - 1], [- 1, - 1]]]]\<rparr> =
   Inr (\<lparr>shape = (1, 1, 2, 2), data = [[[[- (1 / 5), - (1 / 5)], [- (1 / 5), - (1 / 5)]]]]\<rparr>,
        \<lparr>shape = (1, 2, 2, 2),
         data = [[[[- (1 / 5), - (1 / 5)], [- (1 / 5), - (1 / 5)]], [[0, 0], [0, 0]]]]\<rparr>,
        False)"
  by (simp add: init_inner layer_forward_def zero_parameters_def zeros_def map4_def cat_shape_def
      numeral_2_eq_2)

text \<open>Once the current tensor is no longer the input, the input is not written again.\<close>

lemma Sequential_not_aliased:
  assumes "Sequential_forward ops ms a cur False = Inr (a', y, s)"
  shows "a' = a \<and> \<not> s"
  using assms
proof (induction ms arbitrary: cur)
  case Nil
  then show ?case by simp
next
  case (Cons m ms)
  then show ?case by (auto split: sum.splits)
qed

lemma outermost_block_forward:
  "forward ops (UnetSkipConnectionBlock True ms) x = Sequential_forward ops ms x x True"
  by (simp split: sum.splits)

text \<open>
  A block that is not outermost, as the constructor builds it: what is concatenated
  with the output of the rest of the Sequential is the input after the in-place
  LeakyReLU.
\<close>

lemma skip_block_forward:
  assumes "forward ops (UnetSkipConnectionBlock_init oc ic None sub False im nl ud) x = Inr (x', out, s)"
  shows "\<exists>a d y. call ops (LeakyReLU (2 / 10) True) x = Inr a \<and>
           call ops (Conv2d oc ic 4 2 1 (use_bias_of nl)) a = Inr d \<and>
           Sequential_forward ops
             (drop 2 (block_model (UnetSkipConnectionBlock_init oc ic None sub False im nl ud)))
             a d False = Inr (a, y, False) \<and>
           torch_cat ops a y = Inr out \<and> x' = a \<and> \<not> s"
proof -
  obtain rest where m: "UnetSkipConnectionBlock_init oc ic None sub False im nl ud =
      UnetSkipConnectionBlock False
        (Layer (LeakyReLU (2 / 10) True) # Layer (Conv2d oc ic 4 2 1 (use_bias_of nl)) # rest)"
    by (cases im; cases ud) (simp_all add: UnetSkipConnectionBlock_init_def Let_def)
  from assms obtain a where a: "call ops (LeakyReLU (2 / 10) True) x = Inr a"
    unfolding m by (auto simp: layer_forward_def and_then_def split: sum.splits)
  from assms a obtain d where d: "call ops (Conv2d oc ic 4 2 1 (use_bias_of nl)) a = Inr d"
    unfolding m by (auto simp: layer_forward_def and_then_def split: sum.splits)
  from assms a d obtain a' y s' where r: "Sequential_forward ops rest a d False = Inr (a', y, s')"
    unfolding m by (auto simp: layer_forward_def and_then_def split: sum.splits)
  from Sequential_not_aliased [OF r] have e: "a' = a" "\<not> s'" by simp_all
  from assms a d r e have "torch_cat ops a y = Inr out \<and> x' = a \<and> \<not> s"
    unfolding m by (auto simp: layer_forward_def and_then_def split: sum.splits)
  with a d r e show ?thesis
    unfolding m by auto
qed

text \<open>On shapes, a call leaves the shape of its input as it was.\<close>

lemma inplace_shape: "inplace l \<Longrightarrow> layer_shape l x = Inr x"
  by (cases l; cases x) simp_all

lemma layer_shape_unchanged:
  assumes "layer_forward shape_ops l x = Inr (x', y, s)"
  shows "x' = x \<and> (s \<longrightarrow> y = x)"
proof (cases "inplace l")
  case True
  with assms show ?thesis by (auto simp add: layer_forward_shape inplace_shape)
next
  case False
  with assms show ?thesis by (auto simp add: layer_forward_shape split: sum.splits)
qed

lemma shape_unchanged:
  "forward shape_ops m x = Inr (x', y, s) \<Longrightarrow> x' = x \<and> (s \<longrightarrow> y = x)"
  "Sequential_forward shape_ops ms x0 cur al = Inr (x', y, s) \<Longrightarrow> (al \<longrightarrow> cur = x0) \<Longrightarrow>
     x' = x0 \<and> (s \<longrightarrow> al \<and> y = x0)"
proof (induction "shape_ops" m x and "shape_ops" ms x0 cur al arbitrary: x' y s and x' y s
    rule: forward_Sequential_forward.induct)
  case (1 l x)
  then show ?case by (simp add: layer_shape_unchanged)
next
  case (2 x)
  then show ?case by simp
next
  case (3 sf up_layer sm conv_layer mlp_seq x)
  from 3(2) obtain x1 u su where l: "layer_forward shape_ops up_layer x = Inr (x1, u, su)"
    and e: "x' = x1" "s = False"
    by (simp split: sum.splits prod.splits)
  from layer_shape_unchanged [OF l] e show ?case by simp
next
  case (4 om ms x)
  from 4(2) obtain a b c where r: "Sequential_forward shape_ops ms x x True = Inr (a, b, c)"
    by (simp split: sum.splits prod.splits)
  from 4(1) [OF r] have i: "a = x" "c \<longrightarrow> b = x" by simp_all
  from 4(2) r i show ?case
    by (simp split: sum.splits if_splits)
next
  case (5 x cur al)
  then show ?case by simp
next
  case (6 m ms x cur al)
  from 6(3) obtain c' out same where f: "forward shape_ops m cur = Inr (c', out, same)"
    and r: "Sequential_forward shape_ops ms (if al then c' else x) out (al \<and> same) = Inr (x', y, s)"
    by (simp split: sum.splits prod.splits)
  from 6(1) [OF f] have i: "c' = cur" "same \<longrightarrow> out = cur" by simp_all
  have x: "(if al then c' else x) = x" using i(1) 6(4) by simp
  have "al \<and> same \<longrightarrow> out = (if al then c' else x)" using i 6(4) by simp
  from 6(2) [OF f refl refl r this] show ?case unfolding x by simp
qed

lemma skip_block_channel_count:
  assumes "forward shape_ops (UnetSkipConnectionBlock False ms) (n, c, h, w) = Inr (x', out, s)"
  shows "\<exists>cp same. Sequential_forward shape_ops ms (n, c, h, w) (n, c, h, w) True =
                     Inr ((n, c, h, w), (n, cp, h, w), same) \<and>
                   out = (n, c + cp, h, w)"
proof -
  from assms obtain a y same where
    r: "Sequential_forward shape_ops ms (n, c, h, w) (n, c, h, w) True = Inr (a, y, same)"
    and k: "cat_shape a y = Inr out"
    by (simp split: sum.splits prod.splits)
  from shape_unchanged(2) [OF r] have a: "a = (n, c, h, w)" by simp
  obtain n' cp h' w' where y: "y = (n', cp, h', w')" by (cases y) auto
  from k have "n' = n \<and> h' = h \<and> w' = w \<and> out = (n, c + cp, h, w)"
    unfolding a y by (auto simp: cat_shape_def split: if_splits)
  with r a y show ?thesis by auto
qed

end
